theory Spec2Isabelle
  imports Main "HOL-Library.Word" "HOL-Library.Finite_Map"
begin

unbundle bit_operations_syntax

section \<open>JavaScript strings and values\<close>

text \<open>
  A JavaScript string is a sequence of UTF-16 code units, and \<^verbatim>\<open>length\<close> counts them.
  String literals of the source that only label replies, log lines and object fields are
  kept as HOL strings; \<open>js\<close> turns an ASCII literal into code units where the source
  mixes it with client data.
\<close>

type_synonym code_unit = "16 word"
type_synonym jstring = "code_unit list"
type_synonym byte = "8 word"
type_synonym socket_id = string

definition js :: "string \<Rightarrow> jstring" where
  "js s = map (\<lambda>c. of_nat (of_char c)) s"

definition is_js_whitespace :: "code_unit \<Rightarrow> bool" where
  \<comment> \<open>WhiteSpace and LineTerminator of ECMAScript, the characters \<^verbatim>\<open>trim\<close> strips\<close>
  "is_js_whitespace u \<longleftrightarrow>
     u \<in> {0x0009, 0x000A, 0x000B, 0x000C, 0x000D, 0x0020, 0x00A0, 0x1680,
          0x2028, 0x2029, 0x202F, 0x205F, 0x3000, 0xFEFF}
     \<or> (0x2000 \<le> u \<and> u \<le> 0x200A)"

definition trim :: "jstring \<Rightarrow> jstring" where
  "trim s = rev (dropWhile is_js_whitespace (rev (dropWhile is_js_whitespace s)))"

fun dec_nat :: "nat \<Rightarrow> jstring" where
  "dec_nat n = (if n < 10 then [0x30 + of_nat n]
                else dec_nat (n div 10) @ [0x30 + of_nat (n mod 10)])"

declare dec_nat.simps [simp del]

definition dec_int :: "int \<Rightarrow> jstring" where
  "dec_int n = (if n < 0 then 0x2D # dec_nat (nat (- n)) else dec_nat (nat n))"

text \<open>
  The values a handler can receive. Numbers are split by what the code observes of them
  (truthiness, \<^verbatim>\<open>Number.isInteger\<close>, comparison with 0, \<^verbatim>\<open>parseInt\<close>, and the string
  a template literal renders):
  \<^item> \<open>JInt n\<close>: an integer-valued number of magnitude below \<open>10\<^sup>2\<^sup>1\<close>; it renders as
    its decimal digits, so \<^verbatim>\<open>parseInt\<close> gives it back;
  \<^item> \<open>JHuge neg d r\<close>: an integer-valued number of magnitude \<open>10\<^sup>2\<^sup>1\<close> or more; it
    renders in exponent notation as the string \<open>r\<close> (\<^verbatim>\<open>1.5e+21\<close>), of which
    \<^verbatim>\<open>parseInt\<close> reads the sign \<open>neg\<close> and the one leading digit \<open>d\<close>;
  \<^item> \<open>JFrac r\<close>: a finite non-integer or an infinity, rendering as \<open>r\<close>;
  \<^item> \<open>JNaN\<close>.
  \<open>JObj\<close> is a plain object given by its own properties.
\<close>

datatype jsval =
    JUndefined
  | JNull
  | JBool bool
  | JInt int
  | JHuge bool nat jstring
  | JFrac jstring
  | JNaN
  | JStr jstring
  | JArr "jsval list"
  | JObj "(string \<times> jsval) list"

fun truthy :: "jsval \<Rightarrow> bool" where
  "truthy JUndefined = False"
| "truthy JNull = False"
| "truthy (JBool b) = b"
| "truthy (JInt n) = (n \<noteq> 0)"
| "truthy (JHuge neg d r) = True"
| "truthy (JFrac r) = True"
| "truthy JNaN = False"
| "truthy (JStr s) = (s \<noteq> [])"
| "truthy (JArr xs) = True"
| "truthy (JObj fs) = True"

fun is_number :: "jsval \<Rightarrow> bool" where
  \<comment> \<open>\<^verbatim>\<open>typeof v === 'number'\<close>\<close>
  "is_number (JInt n) = True"
| "is_number (JHuge neg d r) = True"
| "is_number (JFrac r) = True"
| "is_number JNaN = True"
| "is_number v = False"

fun is_string :: "jsval \<Rightarrow> bool" where
  "is_string (JStr s) = True"
| "is_string v = False"

fun is_object :: "jsval \<Rightarrow> bool" where
  \<comment> \<open>\<^verbatim>\<open>typeof v === 'object'\<close>, which also holds of null and of arrays\<close>
  "is_object JNull = True"
| "is_object (JArr xs) = True"
| "is_object (JObj fs) = True"
| "is_object v = False"

fun isInteger :: "jsval \<Rightarrow> bool" where
  "isInteger (JInt n) = True"
| "isInteger (JHuge neg d r) = True"
| "isInteger v = False"

fun le_zero :: "jsval \<Rightarrow> bool" where
  \<comment> \<open>\<^verbatim>\<open>v <= 0\<close>, read only of integer-valued numbers\<close>
  "le_zero (JInt n) = (n \<le> 0)"
| "le_zero (JHuge neg d r) = neg"
| "le_zero v = False"

fun parseInt :: "jsval \<Rightarrow> int" where
  \<comment> \<open>\<^verbatim>\<open>parseInt(v)\<close> of an integer-valued number: the digits its rendering starts with.
      The one call of the source sits behind \<^verbatim>\<open>validateReceiverId\<close>, which has rejected
      every other value (lemma \<open>validated_receiver_is_integer\<close>), so the last equation is
      never used\<close>
  "parseInt (JInt n) = n"
| "parseInt (JHuge neg d r) = (if neg then - int d else int d)"
| "parseInt v = 0"

fun get_field :: "string \<Rightarrow> jsval \<Rightarrow> jsval" where
  \<comment> \<open>destructuring one property: absent properties, and every property the handlers
      read of an array or a primitive, are undefined\<close>
  "get_field name (JObj fs) = (case map_of fs name of None \<Rightarrow> JUndefined | Some v \<Rightarrow> v)"
| "get_field name v = JUndefined"

fun to_string :: "jsval \<Rightarrow> jstring" and join_elements :: "jsval list \<Rightarrow> jstring" where
  \<comment> \<open>the string a template literal \<^verbatim>\<open>`${v}`\<close> renders\<close>
  "to_string JUndefined = js ''undefined''"
| "to_string JNull = js ''null''"
| "to_string (JBool b) = (if b then js ''true'' else js ''false'')"
| "to_string (JInt n) = dec_int n"
| "to_string (JHuge neg d r) = r"
| "to_string (JFrac r) = r"
| "to_string JNaN = js ''NaN''"
| "to_string (JStr s) = s"
| "to_string (JArr xs) = join_elements xs"
| "to_string (JObj fs) = js ''[object Object]''"
| "join_elements [] = []"
| "join_elements (x # xs) =
     (if x = JUndefined \<or> x = JNull then [] else to_string x)
     @ (if xs = [] then [] else js '','' @ join_elements xs)"

section \<open>The content cipher: encryptMessage and decryptMessage\<close>

text \<open>
  The module encrypts with \<^verbatim>\<open>crypto.createCipheriv('aes-256-cbc', key, iv)\<close>: cipher block
  chaining over 16-byte blocks with PKCS#7 padding, text read as UTF-8 and the result
  written in lowercase hex. The AES-256 block permutation under the module's key, the
  entropy behind \<^verbatim>\<open>crypto.randomBytes\<close> and the UTF-8 decoder of the runtime are not
  code of this repository; they are parameters.
\<close>

record crypto_env =
  block_encrypt :: "byte list \<Rightarrow> byte list"  \<comment> \<open>AES-256 under the key, on one 16-byte block\<close>
  block_decrypt :: "byte list \<Rightarrow> byte list"  \<comment> \<open>its inverse\<close>
  random_byte :: "nat \<Rightarrow> byte"               \<comment> \<open>the i-th byte \<^verbatim>\<open>randomBytes\<close> returns\<close>
  utf8_decode :: "byte list \<Rightarrow> jstring"      \<comment> \<open>output encoding \<^verbatim>\<open>'utf8'\<close>\<close>

definition randomBytes :: "crypto_env \<Rightarrow> nat \<Rightarrow> byte list" where
  "randomBytes ce n = map (random_byte ce) [0..<n]"

definition is_high_surrogate :: "code_unit \<Rightarrow> bool" where
  "is_high_surrogate u \<longleftrightarrow> 0xD800 \<le> u \<and> u \<le> 0xDBFF"

definition is_low_surrogate :: "code_unit \<Rightarrow> bool" where
  "is_low_surrogate u \<longleftrightarrow> 0xDC00 \<le> u \<and> u \<le> 0xDFFF"

definition utf8_of_code_point :: "nat \<Rightarrow> byte list" where
  "utf8_of_code_point cp =
     (if cp < 0x80 then [of_nat cp]
      else if cp < 0x800 then [of_nat (0xC0 + cp div 64), of_nat (0x80 + cp mod 64)]
      else if cp < 0x10000 then
        [of_nat (0xE0 + cp div 4096), of_nat (0x80 + cp div 64 mod 64), of_nat (0x80 + cp mod 64)]
      else
        [of_nat (0xF0 + cp div 262144), of_nat (0x80 + cp div 4096 mod 64),
         of_nat (0x80 + cp div 64 mod 64), of_nat (0x80 + cp mod 64)])"

fun utf8_encode :: "jstring \<Rightarrow> byte list" where
  \<comment> \<open>input encoding \<^verbatim>\<open>'utf8'\<close>: a surrogate pair is one code point, a lone surrogate
      is written as U+FFFD\<close>
  "utf8_encode [] = []"
| "utf8_encode [u] =
     (if is_high_surrogate u \<or> is_low_surrogate u then utf8_of_code_point 0xFFFD
      else utf8_of_code_point (unat u))"
| "utf8_encode (u # v # rest) =
     (if is_high_surrogate u \<and> is_low_surrogate v then
        utf8_of_code_point (0x10000 + (unat u - 0xD800) * 1024 + (unat v - 0xDC00))
        @ utf8_encode rest
      else if is_high_surrogate u \<or> is_low_surrogate u then
        utf8_of_code_point 0xFFFD @ utf8_encode (v # rest)
      else utf8_of_code_point (unat u) @ utf8_encode (v # rest))"

definition hex_digit :: "nat \<Rightarrow> code_unit" where
  "hex_digit n = (if n < 10 then of_nat (0x30 + n) else of_nat (0x57 + n))"

definition hex_encode :: "byte list \<Rightarrow> jstring" where
  "hex_encode bs = concat (map (\<lambda>b. [hex_digit (unat b div 16), hex_digit (unat b mod 16)]) bs)"

definition hex_value :: "code_unit \<Rightarrow> nat option" where
  "hex_value u =
     (if 0x30 \<le> u \<and> u \<le> 0x39 then Some (unat u - 0x30)
      else if 0x61 \<le> u \<and> u \<le> 0x66 then Some (unat u - 0x57)
      else if 0x41 \<le> u \<and> u \<le> 0x46 then Some (unat u - 0x37)
      else None)"

definition is_hex_string :: "jstring \<Rightarrow> bool" where
  \<comment> \<open>\<^verbatim>\<open>/^[0-9a-fA-F]+$/.test(s)\<close>\<close>
  "is_hex_string s \<longleftrightarrow> s \<noteq> [] \<and> (\<forall>u \<in> set s. hex_value u \<noteq> None)"

fun hex_decode :: "jstring \<Rightarrow> byte list" where
  \<comment> \<open>two digits a byte; \<^verbatim>\<open>decryptMessage\<close> calls it on hex digits only, and on an even
      number of them\<close>
  "hex_decode (a # b # rest) =
     (case (hex_value a, hex_value b) of
        (Some h, Some l) \<Rightarrow> of_nat (16 * h + l) # hex_decode rest
      | _ \<Rightarrow> [])"
| "hex_decode s = []"

definition xor_bytes :: "byte list \<Rightarrow> byte list \<Rightarrow> byte list" where
  "xor_bytes a b = map (\<lambda>(x, y). x XOR y) (zip a b)"

definition pkcs7_pad :: "byte list \<Rightarrow> byte list" where
  "pkcs7_pad bs = (let n = 16 - length bs mod 16 in bs @ replicate n (of_nat n))"

definition pkcs7_unpad :: "byte list \<Rightarrow> byte list option" where
  \<comment> \<open>None is the \<^verbatim>\<open>bad decrypt\<close> error of \<^verbatim>\<open>decipher.final\<close>\<close>
  "pkcs7_unpad bs =
     (if bs = [] then None
      else let n = unat (last bs)
           in if n = 0 \<or> 16 < n \<or> length bs < n then None
              else if \<forall>b \<in> set (drop (length bs - n) bs). b = last bs
                   then Some (take (length bs - n) bs)
                   else None)"

function blocks16 :: "byte list \<Rightarrow> byte list list" where
  "blocks16 bs = (if bs = [] then [] else take 16 bs # blocks16 (drop 16 bs))"
  by pat_completeness auto
termination
  by (relation "measure length") auto

declare blocks16.simps [simp del]

fun cbc_encrypt :: "(byte list \<Rightarrow> byte list) \<Rightarrow> byte list \<Rightarrow> byte list list \<Rightarrow> byte list list" where
  "cbc_encrypt E prev [] = []"
| "cbc_encrypt E prev (p # ps) = (let c = E (xor_bytes p prev) in c # cbc_encrypt E c ps)"

fun cbc_decrypt :: "(byte list \<Rightarrow> byte list) \<Rightarrow> byte list \<Rightarrow> byte list list \<Rightarrow> byte list list" where
  "cbc_decrypt D prev [] = []"
| "cbc_decrypt D prev (c # cs) = xor_bytes (D c) prev # cbc_decrypt D c cs"

definition encryptMessage :: "crypto_env \<Rightarrow> jsval \<Rightarrow> string + (jstring \<times> jstring)" where
  \<comment> \<open>\<open>Inl\<close> is the message of the Error thrown, \<open>Inr\<close> the pair \<^verbatim>\<open>{encrypted, iv}\<close>;
      with a 32-byte key and a 16-byte iv nothing inside the try block throws\<close>
  "encryptMessage ce text =
     (case text of
        JStr s \<Rightarrow>
          if length s = 0 then Inl ''Invalid input: text cannot be empty''
          else let iv = randomBytes ce 16;
                   encrypted = hex_encode (concat (cbc_encrypt (block_encrypt ce) iv
                                 (blocks16 (pkcs7_pad (utf8_encode s)))))
               in Inr (encrypted, hex_encode iv)
      | _ \<Rightarrow> Inl ''Invalid input: text must be a string'')"

definition decipher :: "crypto_env \<Rightarrow> byte list \<Rightarrow> byte list \<Rightarrow> byte list option" where
  \<comment> \<open>\<^verbatim>\<open>decipher.update\<close> and \<^verbatim>\<open>decipher.final\<close>: input that is empty or not whole blocks
      (\<^verbatim>\<open>wrong final block length\<close>) and bad padding (\<^verbatim>\<open>bad decrypt\<close>) throw\<close>
  "decipher ce iv data =
     (if data = [] \<or> length data mod 16 \<noteq> 0 then None
      else pkcs7_unpad (concat (cbc_decrypt (block_decrypt ce) iv (blocks16 data))))"

definition decryptMessage :: "crypto_env \<Rightarrow> jsval \<Rightarrow> jsval \<Rightarrow> string + jstring" where
  \<comment> \<open>everything the try block throws is rethrown as \<^verbatim>\<open>Decryption failed: ...\<close>; that
      includes \<^verbatim>\<open>decipher.update\<close> on hex text of odd length\<close>
  "decryptMessage ce encryptedText ivHex =
     (case encryptedText of
        JStr enc \<Rightarrow>
          (case ivHex of
             JStr ivh \<Rightarrow>
               if \<not> is_hex_string enc then Inl ''Invalid input: encryptedText must be valid hex''
               else if \<not> is_hex_string ivh then Inl ''Invalid input: ivHex must be valid hex''
               else if length ivh \<noteq> 32
                 then Inl ''Invalid IV length: must be 32 hex characters (16 bytes)''
               else if odd (length enc) then Inl ''Decryption failed''
               else (case decipher ce (hex_decode ivh) (hex_decode enc) of
                       None \<Rightarrow> Inl ''Decryption failed''
                     | Some plain \<Rightarrow> Inr (utf8_decode ce plain))
           | _ \<Rightarrow> Inl ''Invalid input: ivHex must be a string'')
      | _ \<Rightarrow> Inl ''Invalid input: encryptedText must be a string'')"

definition xor_first :: "byte \<Rightarrow> byte list \<Rightarrow> byte list" where
  \<comment> \<open>tampering: the bits \<open>d\<close> flipped in the first byte\<close>
  "xor_first d bs = (case bs of [] \<Rightarrow> [] | b # rest \<Rightarrow> (b XOR d) # rest)"

definition block_cipher :: "(byte list \<Rightarrow> byte list) \<Rightarrow> (byte list \<Rightarrow> byte list) \<Rightarrow> bool" where
  \<comment> \<open>what is known of the block primitive: on 16-byte blocks, decryption undoes encryption\<close>
  "block_cipher E D \<longleftrightarrow> (\<forall>b. length b = 16 \<longrightarrow> length (E b) = 16 \<and> D (E b) = b)"

section \<open>Payload validation\<close>

definition MAX_MESSAGE_LENGTH :: nat where
  "MAX_MESSAGE_LENGTH = 10000"

definition VALID_MESSAGE_TYPES :: "jstring list" where
  "VALID_MESSAGE_TYPES = [js ''text'', js ''image'', js ''file'', js ''audio'', js ''video'']"

text \<open>
  A validator returns \<^verbatim>\<open>{valid: false, error}\<close>, here \<open>Inl error\<close>, or
  \<^verbatim>\<open>{valid: true, ...}\<close>, here \<open>Inr\<close> of what it carries.
\<close>

definition validateReceiverId :: "jsval \<Rightarrow> string + unit" where
  "validateReceiverId receiverId =
     (if \<not> truthy receiverId \<or> \<not> is_number receiverId \<or> \<not> isInteger receiverId
        then Inl ''Invalid receiver ID''
      else if le_zero receiverId then Inl ''Receiver ID must be positive''
      else Inr ())"

definition validateContent :: "jsval \<Rightarrow> string + jstring" where
  "validateContent content =
     (case content of
        JStr s \<Rightarrow>
          if \<not> truthy content then Inl ''Message content is required''
          else let trimmed = trim s
               in if length trimmed = 0 then Inl ''Message content cannot be empty''
                  else if length trimmed > MAX_MESSAGE_LENGTH
                    then Inl ''Message too long. Max 10000 characters allowed''
                  else Inr trimmed
      | _ \<Rightarrow> Inl ''Message content is required'')"

definition validateMessageType :: "jsval \<Rightarrow> string + jstring" where
  "validateMessageType messageType =
     (if \<not> truthy messageType then Inr (js ''text'')
      else case messageType of
             JStr s \<Rightarrow>
               if s \<in> set VALID_MESSAGE_TYPES then Inr s
               else Inl ''Invalid message type. Allowed: text, image, file, audio, video''
           | _ \<Rightarrow> Inl ''Invalid message type. Allowed: text, image, file, audio, video'')"

record message_payload =
  receiver_id :: int
  content :: jstring
  message_type :: jstring

definition error_of :: "string + 'a \<Rightarrow> string list" where
  \<comment> \<open>\<^verbatim>\<open>if (!validation.valid) errors.push(validation.error)\<close>\<close>
  "error_of r = (case r of Inl e \<Rightarrow> [e] | Inr _ \<Rightarrow> [])"

definition validateMessagePayload :: "jsval \<Rightarrow> string list + message_payload" where
  "validateMessagePayload data =
     (if \<not> truthy data \<or> \<not> is_object data then Inl [''Invalid data format'']
      else let receiver_id = get_field ''receiver_id'' data;
               content = get_field ''content'' data;
               message_type = get_field ''message_type'' data;
               receiverValidation = validateReceiverId receiver_id;
               contentValidation = validateContent content;
               typeValidation = validateMessageType message_type;
               errors = error_of receiverValidation @ error_of contentValidation
                        @ error_of typeValidation
           in case (contentValidation, typeValidation) of
                (Inr trimmed, Inr value) \<Rightarrow>
                  if length errors > 0 then Inl errors
                  else Inr \<lparr>receiver_id = parseInt receiver_id, content = trimmed,
                            message_type = value\<rparr>
              | _ \<Rightarrow> Inl errors)"

section \<open>The realtime server\<close>

text \<open>
  The rows and collaborators a handler reads. The user and message tables are the rows
  the Sequelize queries of the source select from by their \<^verbatim>\<open>where\<close> clauses. What the
  source does not determine about one run of a handler is a field of \<open>env\<close>: whether
  a query rejects, and the id and timestamp the database gives a created row that the
  Message model has accepted.
\<close>

type_synonym timestamp = nat

record user =
  user_id :: int
  company_id :: int
  username :: jstring
  first_name :: "jstring option"
  last_name :: "jstring option"
  is_active :: bool

record message_row =
  msg_id :: int
  msg_company_id :: int
  msg_sender_id :: int
  msg_receiver_id :: int
  msg_is_read :: bool

record new_message =
  nm_company_id :: int
  nm_sender_id :: int
  nm_receiver_id :: int
  nm_encrypted_message :: jstring
  nm_iv :: jstring
  nm_message_type :: jstring

record sender_info =
  si_id :: int
  si_username :: jstring
  si_first_name :: "jstring option"
  si_last_name :: "jstring option"

record message_data =
  md_id :: int
  md_sender_id :: int
  md_receiver_id :: int
  md_content :: jstring
  md_iv :: jstring
  md_message_type :: jstring
  md_created_at :: timestamp
  md_sender :: sender_info

record audit_entry =
  au_user_id :: int
  au_action :: string
  au_resource_type :: string
  au_resource_id :: int
  au_receiver_id :: int
  au_message_type :: jstring
  au_status :: string

record env =
  users :: "user list"
  messages :: "message_row list"
  crypto :: crypto_env
  user_query_fails :: bool
  create_result :: "(int \<times> timestamp) option"
  update_fails :: bool
  audit_fails :: bool

record conn =
  socket_id :: socket_id
  user :: user

datatype reply =
    Ok                             \<comment> \<open>\<^verbatim>\<open>{success: true}\<close>\<close>
  | Sent message_data              \<comment> \<open>\<^verbatim>\<open>{success: true, message}\<close>\<close>
  | Updated bool                   \<comment> \<open>\<^verbatim>\<open>{success: true, updated}\<close>\<close>
  | Failure string                 \<comment> \<open>\<^verbatim>\<open>{success: false, error}\<close>\<close>
  | Rejected string "string list"  \<comment> \<open>\<^verbatim>\<open>{success: false, error, details}\<close>\<close>

datatype event =
    NewMessage message_data                \<comment> \<open>\<^verbatim>\<open>new_message\<close>\<close>
  | ReadAck jsval int                      \<comment> \<open>\<^verbatim>\<open>message:read:ack {message_id, reader_id}\<close>\<close>
  | FriendRequestReceived int jstring      \<comment> \<open>\<^verbatim>\<open>friend:request:received {sender_id, sender_name}\<close>\<close>
  | FriendRequestAccepted int jstring
      \<comment> \<open>\<^verbatim>\<open>friend:request:accepted:notification {receiver_id, receiver_name}\<close>\<close>
  | UserOnline int
  | UserOffline int

datatype effect =
    Log string string          \<comment> \<open>a call of the logger: level and message\<close>
  | Encrypt jstring            \<comment> \<open>a call of \<^verbatim>\<open>encryptMessage\<close>\<close>
  | DbCreate new_message       \<comment> \<open>a call of \<^verbatim>\<open>Message.create\<close>\<close>
  | DbUpdateRead jsval int     \<comment> \<open>\<^verbatim>\<open>Message.update\<close> of the read state, where id and receiver_id\<close>
  | Emit jstring event         \<comment> \<open>\<^verbatim>\<open>io.to(room).emit(...)\<close>\<close>
  | AuditCreate audit_entry    \<comment> \<open>a call of \<^verbatim>\<open>AuditLog.create\<close>\<close>
  | Ack reply                  \<comment> \<open>a call of the guarded acknowledgment callback\<close>

definition user_room :: "jsval \<Rightarrow> jstring" where
  \<comment> \<open>the template literal \<^verbatim>\<open>`user:${id}`\<close>\<close>
  "user_room v = js ''user:'' @ to_string v"

definition company_room :: "int \<Rightarrow> jstring" where
  "company_room companyId = js ''company:'' @ to_string (JInt companyId)"

definition findOne_active :: "user list \<Rightarrow> int \<Rightarrow> int \<Rightarrow> user option" where
  \<comment> \<open>\<^verbatim>\<open>User.findOne({where: {id, company_id, is_active: true}})\<close>\<close>
  "findOne_active us uid companyId =
     find (\<lambda>u. user_id u = uid \<and> company_id u = companyId \<and> is_active u) us"

definition findByPk :: "user list \<Rightarrow> jsval \<Rightarrow> user option" where
  \<comment> \<open>\<^verbatim>\<open>User.findByPk(id)\<close> of a number: the row with that primary key, in any company\<close>
  "findByPk us v = (case v of JInt n \<Rightarrow> find (\<lambda>u. user_id u = n) us | _ \<Rightarrow> None)"

definition MESSAGE_MODEL_TYPES :: "jstring list" where
  \<comment> \<open>the Message model's \<^verbatim>\<open>validate: {isIn: [['text', 'file', 'image', 'system']]}\<close> on
      \<^verbatim>\<open>message_type\<close>\<close>
  "MESSAGE_MODEL_TYPES = [js ''text'', js ''file'', js ''image'', js ''system'']"

definition Message_create :: "env \<Rightarrow> new_message \<Rightarrow> (int \<times> timestamp) option" where
  \<comment> \<open>\<^verbatim>\<open>Message.create(row)\<close>: the model validates the row before the insert and rejects a
      \<^verbatim>\<open>message_type\<close> outside its list; otherwise the database decides. \<open>None\<close> is a
      rejection, \<open>Some\<close> the id and \<^verbatim>\<open>created_at\<close> of the row\<close>
  "Message_create e row =
     (if nm_message_type row \<notin> set MESSAGE_MODEL_TYPES then None else create_result e)"

definition display_name :: "user \<Rightarrow> jstring" where
  \<comment> \<open>\<^verbatim>\<open>user.first_name ? `${user.first_name} ${user.last_name}` : user.username\<close>\<close>
  "display_name u =
     (case first_name u of
        None \<Rightarrow> username u
      | Some f \<Rightarrow>
          if f = [] then username u
          else f @ js '' '' @ (case last_name u of None \<Rightarrow> js ''null'' | Some l \<Rightarrow> l))"

definition message_send :: "env \<Rightarrow> conn \<Rightarrow> jsval \<Rightarrow> effect list" where
  "message_send e c data =
     (let userId = user_id (user c); companyId = company_id (user c)
      in case validateMessagePayload data of
           Inl errors \<Rightarrow>
             [Log ''warn'' ''Message validation failed'',
              Ack (Rejected ''Invalid message data'' errors)]
         | Inr v \<Rightarrow>
             if user_query_fails e then
               [Log ''error'' ''Unexpected message send error'',
                Ack (Failure ''Internal server error'')]
             else case findOne_active (users e) (receiver_id v) companyId of
               None \<Rightarrow>
                 [Log ''warn'' ''Receiver not found or inactive'',
                  Ack (Failure ''Recipient not found or inactive'')]
             | Some receiver \<Rightarrow>
                 if receiver_id v = userId then
                   [Log ''warn'' ''Self-messaging attempt'',
                    Ack (Failure ''Cannot send messages to yourself'')]
                 else case encryptMessage (crypto e) (JStr (content v)) of
                   Inl err \<Rightarrow>
                     [Encrypt (content v), Log ''error'' ''Encryption failed'',
                      Ack (Failure ''Failed to process message'')]
                 | Inr (encrypted, iv) \<Rightarrow>
                     (let row = \<lparr>nm_company_id = companyId, nm_sender_id = userId,
                                 nm_receiver_id = receiver_id v, nm_encrypted_message = encrypted,
                                 nm_iv = iv, nm_message_type = message_type v\<rparr>
                      in case Message_create e row of
                           None \<Rightarrow>
                             [Encrypt (content v), DbCreate row,
                              Log ''error'' ''Database error saving message'',
                              Ack (Failure ''Failed to save message'')]
                         | Some (mid, created) \<Rightarrow>
                             (let messageData =
                                    \<lparr>md_id = mid, md_sender_id = userId,
                                     md_receiver_id = receiver_id v, md_content = content v,
                                     md_iv = iv, md_message_type = message_type v,
                                     md_created_at = created,
                                     md_sender = \<lparr>si_id = userId,
                                                  si_username = username (user c),
                                                  si_first_name = first_name (user c),
                                                  si_last_name = last_name (user c)\<rparr>\<rparr>;
                                  audit = \<lparr>au_user_id = userId, au_action = ''SOCKET_MESSAGE'',
                                           au_resource_type = ''message'', au_resource_id = mid,
                                           au_receiver_id = receiver_id v,
                                           au_message_type = message_type v,
                                           au_status = ''success''\<rparr>
                              in [Encrypt (content v), DbCreate row,
                                  Emit (user_room (JInt (receiver_id v))) (NewMessage messageData),
                                  AuditCreate audit]
                                 @ (if audit_fails e
                                    then [Log ''error'' ''Failed to create audit log'']
                                    else [])
                                 @ [Log ''info'' ''Message sent successfully'',
                                    Ack (Sent messageData)])))"

section \<open>The acknowledgment guard: safeCallback\<close>

text \<open>
  \<^verbatim>\<open>safeCallback(callback)\<close> returns a closure over one private flag \<^verbatim>\<open>called\<close>,
  initially false. An invocation of the closure either logs a warning and returns (flag
  set) or sets the flag and applies \<^verbatim>\<open>callback\<close> to the arguments. The flag is set
  before the application, so a callback that throws or re-enters the wrapper still finds
  the flag set. What an invocation does to the outside is recorded as an event.
\<close>

datatype 'a cb_event =
    Forwarded 'a   \<comment> \<open>\<^verbatim>\<open>callback.apply(this, args)\<close>\<close>
  | Warned string  \<comment> \<open>\<^verbatim>\<open>logger.warn('Callback already called', ...)\<close>\<close>

definition safeCallback_call :: "bool \<Rightarrow> 'a \<Rightarrow> bool \<times> 'a cb_event" where
  "safeCallback_call called args =
     (if called then (called, Warned ''Callback already called'')
      else (True, Forwarded args))"

fun safeCallback_run :: "bool \<Rightarrow> 'a list \<Rightarrow> 'a cb_event list" where
  "safeCallback_run called [] = []"
| "safeCallback_run called (args # rest) =
     (case safeCallback_call called args of
        (called', ev) \<Rightarrow> ev # safeCallback_run called' rest)"

definition safeCallback :: "'a list \<Rightarrow> 'a cb_event list" where
  \<comment> \<open>the events of a fresh wrapper invoked with each argument in turn\<close>
  "safeCallback invocations = safeCallback_run False invocations"

fun forwarded :: "'a cb_event list \<Rightarrow> 'a list" where
  "forwarded [] = []"
| "forwarded (Forwarded a # es) = a # forwarded es"
| "forwarded (Warned w # es) = forwarded es"

fun warnings :: "'a cb_event list \<Rightarrow> string list" where
  "warnings [] = []"
| "warnings (Forwarded a # es) = warnings es"
| "warnings (Warned w # es) = w # warnings es"

section \<open>The presence registry: connectedUsers\<close>

text \<open>
  \<^verbatim>\<open>connectedUsers\<close> is a Map from company id to a Map from user id to one socket id
  (\<^verbatim>\<open>connectedUsers.get(companyId).set(userId, socket.id)\<close>).
\<close>

type_synonym registry = "(int, (int, socket_id) fmap) fmap"

definition connection_track :: "registry \<Rightarrow> int \<Rightarrow> int \<Rightarrow> socket_id \<Rightarrow> registry" where
  \<comment> \<open>the connection handler: create the company's Map on first use, then set the user's entry\<close>
  "connection_track reg companyId userId sid =
     (let reg1 = (if companyId |\<in>| fmdom reg then reg else fmupd companyId fmempty reg)
      in case fmlookup reg1 companyId of
           None \<Rightarrow> reg1
         | Some companyUsers \<Rightarrow> fmupd companyId (fmupd userId sid companyUsers) reg1)"

definition disconnect_untrack :: "registry \<Rightarrow> int \<Rightarrow> int \<Rightarrow> socket_id \<Rightarrow> registry" where
  \<comment> \<open>the disconnect handler: delete the user's entry, then the company's Map if its size is 0;
      the socket id of the closing connection is not consulted\<close>
  "disconnect_untrack reg companyId userId sid =
     (case fmlookup reg companyId of
        None \<Rightarrow> reg
      | Some companyUsers \<Rightarrow>
          (let companyUsers' = fmdrop userId companyUsers
           in if fcard (fmdom companyUsers') = 0 then fmdrop companyId reg
              else fmupd companyId companyUsers' reg))"

definition getOnlineUsers :: "registry \<Rightarrow> int \<Rightarrow> int fset" where
  \<comment> \<open>the keys of the company's Map (the source returns them as an array), empty when absent\<close>
  "getOnlineUsers reg companyId =
     (case fmlookup reg companyId of None \<Rightarrow> {||} | Some companyUsers \<Rightarrow> fmdom companyUsers)"

definition getOnlineCount :: "registry \<Rightarrow> int \<Rightarrow> nat" where
  "getOnlineCount reg companyId =
     (case fmlookup reg companyId of None \<Rightarrow> 0 | Some companyUsers \<Rightarrow> fcard (fmdom companyUsers))"

definition is_online :: "registry \<Rightarrow> int \<Rightarrow> int \<Rightarrow> bool" where
  \<comment> \<open>\<^verbatim>\<open>connectedUsers.get(companyId)?.has(target_user_id)\<close>, undefined read as false\<close>
  "is_online reg companyId userId =
     (case fmlookup reg companyId of None \<Rightarrow> False | Some companyUsers \<Rightarrow> userId |\<in>| fmdom companyUsers)"

section \<open>Rooms, connections and the other handlers\<close>

text \<open>
  Socket.io keeps, for every room name, the sockets that joined it; \<^verbatim>\<open>io.to(room).emit\<close>
  reaches exactly those. The server's state is that table and the presence registry.
\<close>

record server =
  rooms :: "jstring \<Rightarrow> socket_id set"
  connectedUsers :: registry

definition join :: "socket_id \<Rightarrow> jstring \<Rightarrow> (jstring \<Rightarrow> socket_id set) \<Rightarrow> (jstring \<Rightarrow> socket_id set)" where
  "join sid room rs = rs(room := insert sid (rs room))"

fun pushes_to :: "(jstring \<Rightarrow> socket_id set) \<Rightarrow> effect list \<Rightarrow> socket_id \<Rightarrow> event list" where
  \<comment> \<open>the events a socket receives from the emits of a handler run\<close>
  "pushes_to rs [] sid = []"
| "pushes_to rs (Emit room ev # es) sid =
     (if sid \<in> rs room then ev # pushes_to rs es sid else pushes_to rs es sid)"
| "pushes_to rs (x # es) sid = pushes_to rs es sid"

definition on_connection :: "server \<Rightarrow> conn \<Rightarrow> server \<times> effect list" where
  \<comment> \<open>the connection handler: join the company room and the personal room, track the
      user, broadcast \<^verbatim>\<open>user:online\<close>\<close>
  "on_connection st c =
     (let userId = user_id (user c); companyId = company_id (user c);
          rs = join (socket_id c) (user_room (JInt userId))
                 (join (socket_id c) (company_room companyId) (rooms st))
      in (\<lparr>rooms = rs,
           connectedUsers = connection_track (connectedUsers st) companyId userId (socket_id c)\<rparr>,
          [Log ''info'' ''User connected'', Emit (company_room companyId) (UserOnline userId)]))"

definition register :: "server \<Rightarrow> conn \<Rightarrow> jsval \<Rightarrow> server \<times> effect list" where
  "register st c targetUserId =
     (if \<not> is_number targetUserId \<and> \<not> is_string targetUserId
        then (st, [Ack (Failure ''Invalid user ID'')])
      else (st\<lparr>rooms := join (socket_id c) (user_room targetUserId) (rooms st)\<rparr>,
            [Log ''debug'' ''register'', Ack Ok]))"

definition on_disconnect :: "server \<Rightarrow> conn \<Rightarrow> server \<times> effect list" where
  \<comment> \<open>the disconnect handler; the transport takes the socket out of every room, and the
      write of \<^verbatim>\<open>last_seen\<close> is left out\<close>
  "on_disconnect st c =
     (let userId = user_id (user c); companyId = company_id (user c)
      in (\<lparr>rooms = (\<lambda>room. rooms st room - {socket_id c}),
           connectedUsers = disconnect_untrack (connectedUsers st) companyId userId (socket_id c)\<rparr>,
          [Log ''info'' ''User disconnected'', Emit (company_room companyId) (UserOffline userId)]))"

definition read_matches :: "jsval \<Rightarrow> int \<Rightarrow> message_row \<Rightarrow> bool" where
  \<comment> \<open>\<^verbatim>\<open>where: {id: message_id, receiver_id: userId}\<close>, the id a number\<close>
  "read_matches message_id userId m \<longleftrightarrow>
     (case message_id of JInt n \<Rightarrow> msg_id m = n | _ \<Rightarrow> False) \<and> msg_receiver_id m = userId"

definition update_read :: "message_row list \<Rightarrow> jsval \<Rightarrow> int \<Rightarrow> message_row list \<times> nat" where
  \<comment> \<open>\<^verbatim>\<open>Message.update({is_read: true, read_at}, {where})\<close>: the table afterwards and the
      number of rows the statement affected\<close>
  "update_read ms message_id userId =
     (map (\<lambda>m. if read_matches message_id userId m then m\<lparr>msg_is_read := True\<rparr> else m) ms,
      length (filter (read_matches message_id userId) ms))"

definition message_read :: "env \<Rightarrow> conn \<Rightarrow> jsval \<Rightarrow> message_row list \<times> effect list" where
  "message_read e c data =
     (let userId = user_id (user c);
          message_id = get_field ''message_id'' data;
          sender_id = get_field ''sender_id'' data
      in if \<not> truthy message_id \<or> \<not> is_number message_id
           then (messages e, [Ack (Failure ''Invalid message ID'')])
         else if update_fails e
           then (messages e, [DbUpdateRead message_id userId, Log ''error'' ''Mark as read error'',
                              Ack (Failure ''Failed to mark message as read'')])
         else case update_read (messages e) message_id userId of
                (ms, updatedCount) \<Rightarrow>
                  (ms, [DbUpdateRead message_id userId]
                       @ (if updatedCount > 0
                          then [Emit (user_room sender_id) (ReadAck message_id userId),
                                Log ''info'' ''Message marked as read'']
                          else [])
                       @ [Ack (Updated (updatedCount > 0))]))"

definition friend_request_sent :: "env \<Rightarrow> conn \<Rightarrow> jsval \<Rightarrow> effect list" where
  "friend_request_sent e c data =
     (let userId = user_id (user c); receiver_id = get_field ''receiver_id'' data
      in if \<not> truthy receiver_id \<or> \<not> is_number receiver_id
           then [Ack (Failure ''Invalid receiver ID'')]
         else if user_query_fails e
           then [Log ''error'' ''Friend request notification error'',
                 Ack (Failure ''Failed to send notification'')]
         else case findByPk (users e) receiver_id of
                Some receiver \<Rightarrow>
                  [Emit (user_room receiver_id)
                     (FriendRequestReceived userId (display_name (user c))),
                   Log ''info'' ''Friend request notification sent'', Ack Ok]
              | None \<Rightarrow> [Ack Ok])"

definition friend_request_accepted :: "env \<Rightarrow> conn \<Rightarrow> jsval \<Rightarrow> effect list" where
  "friend_request_accepted e c data =
     (let userId = user_id (user c); sender_id = get_field ''sender_id'' data
      in if \<not> truthy sender_id \<or> \<not> is_number sender_id
           then [Ack (Failure ''Invalid sender ID'')]
         else [Emit (user_room sender_id)
                 (FriendRequestAccepted userId (display_name (user c))),
               Log ''info'' ''Friend request accepted notification sent'', Ack Ok])"

section \<open>The chat client: pending messages and replay\<close>

text \<open>
  \<^verbatim>\<open>pendingMessages\<close> is a Map from temporary id to \<^verbatim>\<open>{content, receiverId, tempId}\<close>; a Map
  iterates in insertion order, so it is an association list with the Map's \<^verbatim>\<open>set\<close> and
  \<^verbatim>\<open>delete\<close>. What the server answers to an emit is an input: \<open>Some\<close> of the
  acknowledgment, or \<open>None\<close> when none arrives and the timer rejects.
\<close>

datatype connection_state = Connecting | Connected | Disconnected | Reconnecting

record pending_message =
  pm_content :: jstring
  pm_receiverId :: int
  pm_tempId :: nat

datatype client_message =
    TempMessage nat jstring   \<comment> \<open>the optimistic entry: temporary id and content\<close>
  | ServerMessage jsval       \<comment> \<open>\<^verbatim>\<open>response.message\<close>\<close>

record chat =
  has_socket :: bool
  connectionState :: connection_state
  reconnectAttempts :: nat
  currentUser :: int
  selectedUser :: "int option"
  chat_messages :: "client_message list"
  pendingMessages :: "(nat \<times> pending_message) list"

datatype response =
    Success jsval             \<comment> \<open>\<^verbatim>\<open>{success: true, message}\<close>\<close>
  | Failed "string option"    \<comment> \<open>any other acknowledgment, with its \<^verbatim>\<open>error\<close> text if it
                                  has one; \<^verbatim>\<open>response?.error || ...\<close> passes over an empty text\<close>

datatype client_effect =
    EmitMessageSend int jstring   \<comment> \<open>\<^verbatim>\<open>socket.emit('message:send', {receiver_id, content})\<close>\<close>
  | EmitRegister int
  | Console string
  | Toast string

fun map_set :: "'k \<Rightarrow> 'v \<Rightarrow> ('k \<times> 'v) list \<Rightarrow> ('k \<times> 'v) list" where
  "map_set k v [] = [(k, v)]"
| "map_set k v ((k', v') # kvs) = (if k' = k then (k, v) # kvs else (k', v') # map_set k v kvs)"

definition map_delete :: "'k \<Rightarrow> ('k \<times> 'v) list \<Rightarrow> ('k \<times> 'v) list" where
  "map_delete k kvs = filter (\<lambda>kv. fst kv \<noteq> k) kvs"

datatype 'a promise = Resolved 'a | RejectedWith string

definition sendMessageAsync ::
  "chat \<Rightarrow> jstring \<Rightarrow> int \<Rightarrow> nat option \<Rightarrow> response option
     \<Rightarrow> chat \<times> client_effect list \<times> response promise" where
  \<comment> \<open>the chat afterwards, what was emitted, and how the promise settles; \<open>text\<close> is
      the parameter \<^verbatim>\<open>content\<close>\<close>
  "sendMessageAsync ch text receiverId tempId answer =
     (if \<not> has_socket ch \<or> connectionState ch \<noteq> Connected
        then (ch, [], RejectedWith ''Not connected'')
      else (ch, [EmitMessageSend receiverId (trim text)],
            case answer of
              Some (Success m) \<Rightarrow> Resolved (Success m)
            | Some (Failed (Some err)) \<Rightarrow>
                RejectedWith (if err = [] then ''Failed to send message'' else err)
            | Some (Failed None) \<Rightarrow> RejectedWith ''Failed to send message''
            | None \<Rightarrow> RejectedWith ''Message send timeout''))"

fun resend_loop ::
  "chat \<Rightarrow> (nat \<times> pending_message) list \<Rightarrow> (nat \<Rightarrow> response option)
     \<Rightarrow> chat \<times> client_effect list" where
  \<comment> \<open>the \<^verbatim>\<open>for ... of pending\<close> loop; \<open>answers\<close> gives the server's answer to the
      replay of each temporary id\<close>
  "resend_loop ch [] answers = (ch, [])"
| "resend_loop ch ((tempId, messageData) # rest) answers =
     (case sendMessageAsync ch (pm_content messageData) (pm_receiverId messageData)
             (Some tempId) (answers tempId) of
        (ch1, emitted, outcome) \<Rightarrow>
          (case resend_loop ch1 rest answers of
             (ch2, later) \<Rightarrow>
               (ch2, emitted
                     @ (case outcome of
                          Resolved r \<Rightarrow> []
                        | RejectedWith err \<Rightarrow> [Console ''Failed to resend message:''])
                     @ later)))"

definition resendPendingMessages ::
  "chat \<Rightarrow> (nat \<Rightarrow> response option) \<Rightarrow> chat \<times> client_effect list" where
  "resendPendingMessages ch answers =
     (if length (pendingMessages ch) = 0 then (ch, [])
      else case resend_loop ch (pendingMessages ch) answers of
             (ch', effs) \<Rightarrow> (ch', Console ''Resending pending messages'' # effs))"

definition on_connect :: "chat \<Rightarrow> (nat \<Rightarrow> response option) \<Rightarrow> chat \<times> client_effect list" where
  \<comment> \<open>the socket's \<^verbatim>\<open>connect\<close> listener, which runs at the first connection and at
      every reconnection\<close>
  "on_connect ch answers =
     (let ch1 = ch\<lparr>connectionState := Connected, reconnectAttempts := 0\<rparr>
      in case resendPendingMessages ch1 answers of
           (ch2, effs) \<Rightarrow> (ch2, [Toast ''Connected'', EmitRegister (currentUser ch1)] @ effs))"

definition sendMessage :: "chat \<Rightarrow> jstring \<Rightarrow> nat \<Rightarrow> chat \<times> client_effect list" where
  \<comment> \<open>the interactive send up to its emit; \<open>tempId\<close> is the value of \<^verbatim>\<open>Date.now()\<close>\<close>
  "sendMessage ch text tempId =
     (case selectedUser ch of
        None \<Rightarrow> (ch, [Toast ''Please select a user to chat with''])
      | Some receiver \<Rightarrow>
          (let ch1 = ch\<lparr>chat_messages := chat_messages ch @ [TempMessage tempId text],
                          pendingMessages :=
                            map_set tempId
                              \<lparr>pm_content = text, pm_receiverId = receiver, pm_tempId = tempId\<rparr>
                              (pendingMessages ch)\<rparr>
           in if has_socket ch1 \<and> connectionState ch1 = Connected
                then (ch1, [EmitMessageSend receiver (trim text)])
              else (ch1, [Toast ''Not connected. Message queued.''])))"

fun replace_temp :: "nat \<Rightarrow> jsval \<Rightarrow> client_message list \<Rightarrow> client_message list" where
  \<comment> \<open>\<^verbatim>\<open>findIndex(m => m.temp === tempId)\<close> and the assignment at that index\<close>
  "replace_temp tempId m [] = []"
| "replace_temp tempId m (TempMessage t c # ms) =
     (if t = tempId then ServerMessage m # ms else TempMessage t c # replace_temp tempId m ms)"
| "replace_temp tempId m (x # ms) = x # replace_temp tempId m ms"

definition sendMessage_ack :: "chat \<Rightarrow> nat \<Rightarrow> response \<Rightarrow> chat \<times> client_effect list" where
  \<comment> \<open>the acknowledgment callback of the interactive send\<close>
  "sendMessage_ack ch tempId resp =
     (case resp of
        Success m \<Rightarrow>
          (ch\<lparr>pendingMessages := map_delete tempId (pendingMessages ch),
               chat_messages := replace_temp tempId m (chat_messages ch)\<rparr>, [])
      | Failed err \<Rightarrow>
          (ch, [Toast (case err of
                         Some msg \<Rightarrow> if msg = [] then ''Failed to send message'' else msg
                       | None \<Rightarrow> ''Failed to send message'')]))"

section \<open>Reading a handler's trace\<close>

fun creates :: "effect list \<Rightarrow> new_message list" where
  "creates [] = []"
| "creates (DbCreate row # es) = row # creates es"
| "creates (x # es) = creates es"

fun acks :: "effect list \<Rightarrow> reply list" where
  "acks [] = []"
| "acks (Ack r # es) = r # acks es"
| "acks (x # es) = acks es"

fun emits :: "effect list \<Rightarrow> (jstring \<times> event) list" where
  "emits [] = []"
| "emits (Emit room ev # es) = (room, ev) # emits es"
| "emits (x # es) = emits es"

fun message_sends :: "client_effect list \<Rightarrow> (int \<times> jstring) list" where
  "message_sends [] = []"
| "message_sends (EmitMessageSend r t # es) = (r, t) # message_sends es"
| "message_sends (x # es) = message_sends es"

section \<open>A scenario: two companies\<close>

text \<open>
  Alice (1) and Bob (2) belong to company 1, Mallory (42) to company 2. The cipher of the
  scenario reverses a block where the deployment applies AES, its random bytes count up
  from zero, and its decoder reads single-byte characters.
\<close>

definition alice :: user where
  "alice = \<lparr>user_id = 1, company_id = 1, username = js ''alice'', first_name = None,
            last_name = None, is_active = True\<rparr>"

definition bob :: user where
  "bob = \<lparr>user_id = 2, company_id = 1, username = js ''bob'', first_name = None,
          last_name = None, is_active = True\<rparr>"

definition mallory :: user where
  "mallory = \<lparr>user_id = 42, company_id = 2, username = js ''mallory'', first_name = None,
              last_name = None, is_active = True\<rparr>"

definition scenario_crypto :: crypto_env where
  "scenario_crypto = \<lparr>block_encrypt = rev, block_decrypt = rev,
                      random_byte = (\<lambda>i. of_nat i), utf8_decode = map ucast\<rparr>"

definition scenario_env :: env where
  "scenario_env = \<lparr>users = [alice, bob, mallory],
                   messages = [\<lparr>msg_id = 7, msg_company_id = 1, msg_sender_id = 2,
                                msg_receiver_id = 1, msg_is_read = False\<rparr>],
                   crypto = scenario_crypto, user_query_fails = False,
                   create_result = Some (100, 1700000000), update_fails = False,
                   audit_fails = False\<rparr>"

definition conn_of :: "socket_id \<Rightarrow> user \<Rightarrow> conn" where
  "conn_of sid u = \<lparr>socket_id = sid, user = u\<rparr>"

definition scenario_server :: server where
  \<comment> \<open>Bob and Mallory are connected, each with one socket\<close>
  "scenario_server =
     fst (on_connection
            (fst (on_connection \<lparr>rooms = (\<lambda>room. {}), connectedUsers = fmempty\<rparr>
                    (conn_of ''socket-bob'' bob)))
            (conn_of ''socket-mallory'' mallory))"

definition hello_to :: "int \<Rightarrow> jsval" where
  \<comment> \<open>the payload \<^verbatim>\<open>{receiver_id: r, content: 'hello', message_type: 'text'}\<close>\<close>
  "hello_to r = JObj [(''receiver_id'', JInt r), (''content'', JStr (js ''hello'')),
                      (''message_type'', JStr (js ''text''))]"

definition scenario_chat :: chat where
  \<comment> \<open>Alice's client while reconnecting, with two sends to Bob still pending\<close>
  "scenario_chat =
     \<lparr>has_socket = True, connectionState = Reconnecting, reconnectAttempts = 1,
      currentUser = 1, selectedUser = Some 2,
      chat_messages = [TempMessage 1001 (js ''one''), TempMessage 1002 (js ''two'')],
      pendingMessages =
        [(1001, \<lparr>pm_content = js ''one'', pm_receiverId = 2, pm_tempId = 1001\<rparr>),
         (1002, \<lparr>pm_content = js ''two'', pm_receiverId = 2, pm_tempId = 1002\<rparr>)]\<rparr>"

section \<open>Properties of the acknowledgment guard\<close>

lemma safeCallback_run_called:
  "safeCallback_run True xs = map (\<lambda>_. Warned ''Callback already called'') xs"
  by (induction xs) (simp_all add: safeCallback_call_def)

lemma forwarded_warned: "forwarded (map (\<lambda>_. Warned w) xs) = []"
  by (induction xs) simp_all

lemma warnings_warned: "warnings (map (\<lambda>_. Warned w) xs) = replicate (length xs) w"
  by (induction xs) simp_all

text \<open>
  C6. A wrapper made by \<^verbatim>\<open>safeCallback(f)\<close> and invoked one or more times forwards the
  arguments of its first invocation to \<open>f\<close>, and that is the only call of \<open>f\<close>; every
  later invocation only logs the warning "Callback already called".
\<close>

theorem safeCallback_forwards_once:
  "safeCallback (a # rest) = Forwarded a # map (\<lambda>_. Warned ''Callback already called'') rest
   \<and> forwarded (safeCallback (a # rest)) = [a]
   \<and> warnings (safeCallback (a # rest)) = replicate (length rest) ''Callback already called''"
  by (simp add: safeCallback_def safeCallback_call_def safeCallback_run_called
        forwarded_warned warnings_warned)

section \<open>Properties of the presence registry\<close>

lemma offline_after_untrack:
  "\<not> is_online (disconnect_untrack (connection_track reg c u s) c u s) c u"
  by (auto simp: is_online_def disconnect_untrack_def connection_track_def Let_def
           split: option.splits if_splits)

lemma count_after_untrack:
  "\<not> is_online reg c u \<Longrightarrow>
   getOnlineCount (disconnect_untrack (connection_track reg c u s) c u s) c = getOnlineCount reg c"
  by (auto simp: is_online_def getOnlineCount_def disconnect_untrack_def connection_track_def
                 Let_def
           split: option.splits if_splits)

lemma company_entry_after_untrack:
  "fmlookup (disconnect_untrack reg c u s) c =
     (case fmlookup reg c of
        None \<Rightarrow> None
      | Some companyUsers \<Rightarrow>
          if fmdom (fmdrop u companyUsers) = {||} then None else Some (fmdrop u companyUsers))"
  by (auto simp: disconnect_untrack_def Let_def split: option.splits)

text \<open>
  C5 at its failing input. The source's comment documents \<^verbatim>\<open>connectedUsers\<close> as
  \<^verbatim>\<open>Map<userId, Set<socketId>>\<close>, but the connection handler stores one socket id per
  user and the disconnect handler deletes the user's entry without looking at the socket
  that closed. So for a user who is online, a further connection of that user followed
  by its disconnection leaves the user offline and the company's online count one lower
  than before, while the earlier connection is still open.
\<close>

theorem untrack_forgets_other_connection:
  assumes "is_online reg c u"
  shows "\<not> is_online (disconnect_untrack (connection_track reg c u s2) c u s2) c u
     \<and> Suc (getOnlineCount (disconnect_untrack (connection_track reg c u s2) c u s2) c)
         = getOnlineCount reg c"
proof -
  from assms obtain m where m: "fmlookup reg c = Some m" "u |\<in>| fmdom m"
    by (auto simp: is_online_def split: option.splits)
  have t: "connection_track reg c u s2 = fmupd c (fmupd u s2 m) reg"
    using m(1) fmdomI [OF m(1)] by (simp add: connection_track_def Let_def)
  have d: "fmdom (fmdrop u (fmupd u s2 m)) = fmdom m |-| {|u|}"
    using m(2) by auto
  have S: "Suc (fcard (fmdom m |-| {|u|})) = fcard (fmdom m)"
    using m(2) by (rule fcard_Suc_fminus1)
  have "Suc (getOnlineCount (disconnect_untrack (connection_track reg c u s2) c u s2) c)
         = getOnlineCount reg c"
    unfolding t using S
    by (cases "fcard (fmdom m |-| {|u|}) = 0")
       (simp_all add: getOnlineCount_def disconnect_untrack_def Let_def m(1) d)
  then show ?thesis using offline_after_untrack by blast
qed

text \<open>
  User 7 of company 1 is online through socket s1; a second socket s2 of the same user
  connects and disconnects. The user counted before, and s1 never closed, yet the user is
  offline and the count of company 1 is 0.
\<close>

theorem untrack_forgets_other_connection_witness:
  "is_online (fmupd 1 (fmupd 7 ''s1'' fmempty) fmempty) 1 7
   \<and> getOnlineCount (fmupd 1 (fmupd 7 ''s1'' fmempty) fmempty) 1 = 1
   \<and> \<not> is_online
         (disconnect_untrack
            (connection_track (fmupd 1 (fmupd 7 ''s1'' fmempty) fmempty) 1 7 ''s2'') 1 7 ''s2'')
         1 7
   \<and> getOnlineCount
         (disconnect_untrack
            (connection_track (fmupd 1 (fmupd 7 ''s1'' fmempty) fmempty) 1 7 ''s2'') 1 7 ''s2'') 1
       = 0"
proof -
  have h: "is_online (fmupd 1 (fmupd 7 ''s1'' fmempty) fmempty) 1 7"
    by (simp add: is_online_def)
  have c: "getOnlineCount (fmupd 1 (fmupd 7 ''s1'' fmempty) fmempty) 1 = 1"
    by (simp add: getOnlineCount_def fcard_finsert_if)
  show ?thesis
    using h c untrack_forgets_other_connection [OF h, of "''s2''"]
    by simp
qed

section \<open>Properties of payload validation\<close>

lemma trim_Nil: "trim [] = []"
  by (simp add: trim_def)

lemma dropWhile_replicate: "\<not> P x \<Longrightarrow> dropWhile P (replicate n x) = replicate n x"
  by (cases n) simp_all

lemma trim_replicate: "\<not> is_js_whitespace x \<Longrightarrow> trim (replicate n x) = replicate n x"
  by (simp add: trim_def dropWhile_replicate)

lemma validateReceiverId_ok:
  "validateReceiverId r = Inr () \<longleftrightarrow>
     (case r of JInt n \<Rightarrow> 0 < n | JHuge neg d s \<Rightarrow> \<not> neg | _ \<Rightarrow> False)"
  by (cases r) (auto simp: validateReceiverId_def)

lemma validateContent_ok:
  "validateContent v = Inr t \<longleftrightarrow>
     (case v of
        JStr s \<Rightarrow> t = trim s \<and> 1 \<le> length (trim s) \<and> length (trim s) \<le> 10000
      | _ \<Rightarrow> False)"
  by (cases v)
     (auto simp: validateContent_def MAX_MESSAGE_LENGTH_def Let_def trim_Nil Suc_le_eq)

lemma validateMessageType_ok:
  "(\<exists>t. validateMessageType v = Inr t) \<longleftrightarrow>
     (\<not> truthy v \<or> (case v of JStr s \<Rightarrow> s \<in> set VALID_MESSAGE_TYPES | _ \<Rightarrow> False))"
  by (cases v) (auto simp: validateMessageType_def)

lemma validateMessagePayload_Inl_nonempty:
  "validateMessagePayload data = Inl errors \<Longrightarrow> errors \<noteq> []"
  by (auto simp: validateMessagePayload_def Let_def error_of_def split: if_splits sum.splits)

lemma validateMessagePayload_Inr:
  "validateMessagePayload data = Inr v \<longleftrightarrow>
     truthy data \<and> is_object data
     \<and> validateReceiverId (get_field ''receiver_id'' data) = Inr ()
     \<and> validateContent (get_field ''content'' data) = Inr (content v)
     \<and> validateMessageType (get_field ''message_type'' data) = Inr (message_type v)
     \<and> receiver_id v = parseInt (get_field ''receiver_id'' data)"
  by (cases v)
     (auto simp: validateMessagePayload_def Let_def error_of_def split: if_splits sum.splits)

lemma validated_receiver_is_integer:
  "validateMessagePayload data = Inr v \<Longrightarrow> isInteger (get_field ''receiver_id'' data)"
  by (auto simp: validateMessagePayload_Inr validateReceiverId_def split: if_splits)

lemma too_long_reported:
  assumes "validateMessagePayload data = Inl errors" "truthy data" "is_object data"
    "get_field ''content'' data = JStr s" "10000 < length (trim s)"
  shows "''Message too long. Max 10000 characters allowed'' \<in> set errors"
proof -
  have s: "s \<noteq> []" using assms(5) by (auto simp: trim_Nil)
  have "validateContent (JStr s) = Inl ''Message too long. Max 10000 characters allowed''"
    using assms(5) s by (auto simp: validateContent_def MAX_MESSAGE_LENGTH_def Let_def)
  then show ?thesis using assms(1-4)
    by (auto simp: validateMessagePayload_def Let_def error_of_def split: if_splits sum.splits)
qed

lemma message_send_rejected:
  "validateMessagePayload data = Inl errors \<Longrightarrow>
   message_send e c data =
     [Log ''warn'' ''Message validation failed'', Ack (Rejected ''Invalid message data'' errors)]"
  by (simp add: message_send_def Let_def)

lemma invalid_payload_is_rejected:
  assumes "\<not> (truthy data \<and> is_object data
       \<and> (case get_field ''receiver_id'' data of
            JInt n \<Rightarrow> 0 < n | JHuge neg d r \<Rightarrow> \<not> neg | _ \<Rightarrow> False)
       \<and> (case get_field ''content'' data of
            JStr s \<Rightarrow> 1 \<le> length (trim s) \<and> length (trim s) \<le> 10000 | _ \<Rightarrow> False)
       \<and> (\<not> truthy (get_field ''message_type'' data)
          \<or> (case get_field ''message_type'' data of
               JStr t \<Rightarrow> t \<in> set VALID_MESSAGE_TYPES | _ \<Rightarrow> False)))"
  shows "\<exists>errors. validateMessagePayload data = Inl errors"
proof (cases "validateMessagePayload data")
  case (Inl a)
  then show ?thesis by blast
next
  case (Inr v)
  then have 1: "truthy data \<and> is_object data"
    and 2: "validateReceiverId (get_field ''receiver_id'' data) = Inr ()"
    and 3: "validateContent (get_field ''content'' data) = Inr (content v)"
    and 4: "validateMessageType (get_field ''message_type'' data) = Inr (message_type v)"
    by (simp_all add: validateMessagePayload_Inr)
  from 4 have 5: "\<exists>t. validateMessageType (get_field ''message_type'' data) = Inr t"
    by blast
  from 3 have 6: "(case get_field ''content'' data of
            JStr s \<Rightarrow> 1 \<le> length (trim s) \<and> length (trim s) \<le> 10000 | _ \<Rightarrow> False)"
    by (auto simp: validateContent_ok split: jsval.splits)
  show ?thesis
    using assms 1 2 5 6 unfolding validateReceiverId_ok validateMessageType_ok by blast
qed

text \<open>
  C7. A \<^verbatim>\<open>message:send\<close> whose payload fails validation (it is not an object, or its
  receiver id is not a positive integer, or its content is not a string of 1 to 10000
  characters after trimming, or its declared type is given and outside the closed set)
  does two things only: it logs the validation failure and it acknowledges once with
  \<^verbatim>\<open>{success: false, error: 'Invalid message data', details}\<close>, where \<open>details\<close> is a
  non-empty list of reasons that names "Message too long. Max 10000 characters allowed"
  when the trimmed content exceeds 10000 characters. The run contains no call of the
  cipher, of the message store or of the audit log, and no emit.
\<close>

theorem message_send_invalid_payload:
  assumes "\<not> (truthy data \<and> is_object data
       \<and> (case get_field ''receiver_id'' data of
            JInt n \<Rightarrow> 0 < n | JHuge neg d r \<Rightarrow> \<not> neg | _ \<Rightarrow> False)
       \<and> (case get_field ''content'' data of
            JStr s \<Rightarrow> 1 \<le> length (trim s) \<and> length (trim s) \<le> 10000 | _ \<Rightarrow> False)
       \<and> (\<not> truthy (get_field ''message_type'' data)
          \<or> (case get_field ''message_type'' data of
               JStr t \<Rightarrow> t \<in> set VALID_MESSAGE_TYPES | _ \<Rightarrow> False)))"
  shows "\<exists>details. details \<noteq> []
     \<and> message_send e c data =
         [Log ''warn'' ''Message validation failed'',
          Ack (Rejected ''Invalid message data'' details)]
     \<and> (\<forall>s. truthy data \<and> is_object data \<and> get_field ''content'' data = JStr s
              \<and> 10000 < length (trim s)
            \<longrightarrow> ''Message too long. Max 10000 characters allowed'' \<in> set details)"
proof -
  from assms obtain errors where e: "validateMessagePayload data = Inl errors"
    using invalid_payload_is_rejected by blast
  have "errors \<noteq> []" using e by (rule validateMessagePayload_Inl_nonempty)
  moreover have "message_send e c data =
      [Log ''warn'' ''Message validation failed'', Ack (Rejected ''Invalid message data'' errors)]"
    using e by (rule message_send_rejected)
  moreover have "\<forall>s. truthy data \<and> is_object data \<and> get_field ''content'' data = JStr s
              \<and> 10000 < length (trim s)
            \<longrightarrow> ''Message too long. Max 10000 characters allowed'' \<in> set errors"
    using e too_long_reported by blast
  ultimately show ?thesis by blast
qed

text \<open>
  Content of 10001 letters A.
\<close>

theorem message_send_invalid_payload_witness:
  "\<exists>details. ''Message too long. Max 10000 characters allowed'' \<in> set details
     \<and> message_send scenario_env (conn_of ''socket-alice'' alice)
          (JObj [(''receiver_id'', JInt 2), (''content'', JStr (replicate 10001 0x41)),
                 (''message_type'', JStr (js ''text''))]) =
         [Log ''warn'' ''Message validation failed'',
          Ack (Rejected ''Invalid message data'' details)]"
proof -
  let ?data = "JObj [(''receiver_id'', JInt 2), (''content'', JStr (replicate 10001 0x41)),
                     (''message_type'', JStr (js ''text''))]"
  have t: "trim (replicate 10001 (0x41 :: code_unit)) = replicate 10001 0x41"
    by (rule trim_replicate) (simp add: is_js_whitespace_def)
  have c: "get_field ''content'' ?data = JStr (replicate 10001 0x41)" by simp
  have h: "\<not> (truthy ?data \<and> is_object ?data
       \<and> (case get_field ''receiver_id'' ?data of
            JInt n \<Rightarrow> 0 < n | JHuge neg d r \<Rightarrow> \<not> neg | _ \<Rightarrow> False)
       \<and> (case get_field ''content'' ?data of
            JStr s \<Rightarrow> 1 \<le> length (trim s) \<and> length (trim s) \<le> 10000 | _ \<Rightarrow> False)
       \<and> (\<not> truthy (get_field ''message_type'' ?data)
          \<or> (case get_field ''message_type'' ?data of
               JStr t \<Rightarrow> t \<in> set VALID_MESSAGE_TYPES | _ \<Rightarrow> False)))"
    unfolding c by (simp add: t)
  have l: "truthy ?data \<and> is_object ?data \<and> get_field ''content'' ?data = JStr (replicate 10001 0x41)
           \<and> 10000 < length (trim (replicate 10001 (0x41 :: code_unit)))"
    by (simp add: t)
  from message_send_invalid_payload [OF h, of scenario_env "conn_of ''socket-alice'' alice"]
  obtain details where
    1: "message_send scenario_env (conn_of ''socket-alice'' alice) ?data =
         [Log ''warn'' ''Message validation failed'',
          Ack (Rejected ''Invalid message data'' details)]"
    and 2: "\<forall>s. truthy ?data \<and> is_object ?data \<and> get_field ''content'' ?data = JStr s
              \<and> 10000 < length (trim s)
            \<longrightarrow> ''Message too long. Max 10000 characters allowed'' \<in> set details"
    by blast
  from 2 l have "''Message too long. Max 10000 characters allowed'' \<in> set details" by blast
  with 1 show ?thesis by blast
qed

section \<open>Properties of the message pipeline\<close>

lemma get_field_object: "get_field name data = JInt r \<Longrightarrow> truthy data \<and> is_object data"
  by (cases data) simp_all

lemma encryptMessage_nonempty:
  "s \<noteq> [] \<Longrightarrow> \<exists>enc iv. encryptMessage ce (JStr s) = Inr (enc, iv)"
  by (simp add: encryptMessage_def Let_def)

lemma validated_content_nonempty:
  "validateMessagePayload data = Inr v \<Longrightarrow> content v \<noteq> []"
  by (auto simp: validateMessagePayload_Inr validateContent_ok split: jsval.splits)

lemma pushes_to_emits:
  "pushes_to rs es sid = map snd (filter (\<lambda>p. sid \<in> rs (fst p)) (emits es))"
  by (induction rs es sid rule: pushes_to.induct) simp_all

lemma message_send_success:
  assumes v: "validateMessagePayload data = Inr v"
    and q: "\<not> user_query_fails e"
    and f: "findOne_active (users e) (receiver_id v) (company_id (user c)) = Some u"
    and n: "receiver_id v \<noteq> user_id (user c)"
    and cr: "create_result e = Some (mid, created)"
    and mt: "message_type v \<in> set MESSAGE_MODEL_TYPES"
  shows "\<exists>row md. creates (message_send e c data) = [row]
      \<and> nm_company_id row = company_id (user c) \<and> nm_sender_id row = user_id (user c)
      \<and> nm_receiver_id row = receiver_id v \<and> nm_message_type row = message_type v
      \<and> acks (message_send e c data) = [Sent md]
      \<and> emits (message_send e c data) = [(user_room (JInt (receiver_id v)), NewMessage md)]
      \<and> md_id md = mid \<and> md_created_at md = created \<and> md_content md = content v
      \<and> md_sender_id md = user_id (user c) \<and> md_receiver_id md = receiver_id v
      \<and> md_message_type md = message_type v"
proof -
  from validated_content_nonempty [OF v] obtain enc iv
    where enc: "encryptMessage (crypto e) (JStr (content v)) = Inr (enc, iv)"
    using encryptMessage_nonempty by blast
  show ?thesis
    by (cases "audit_fails e")
       (simp_all add: message_send_def Message_create_def Let_def v q f n cr mt enc)
qed

lemma message_send_create_fails:
  assumes v: "validateMessagePayload data = Inr v"
    and q: "\<not> user_query_fails e"
    and f: "findOne_active (users e) (receiver_id v) (company_id (user c)) = Some u"
    and n: "receiver_id v \<noteq> user_id (user c)"
    and cr: "create_result e = None \<or> message_type v \<notin> set MESSAGE_MODEL_TYPES"
  shows "acks (message_send e c data) = [Failure ''Failed to save message'']
       \<and> emits (message_send e c data) = []
       \<and> length (creates (message_send e c data)) = 1"
proof -
  from validated_content_nonempty [OF v] obtain enc iv
    where enc: "encryptMessage (crypto e) (JStr (content v)) = Inr (enc, iv)"
    using encryptMessage_nonempty by blast
  have "Message_create e
          \<lparr>nm_company_id = company_id (user c), nm_sender_id = user_id (user c),
           nm_receiver_id = receiver_id v, nm_encrypted_message = enc, nm_iv = iv,
           nm_message_type = message_type v\<rparr> = None"
    using cr by (auto simp: Message_create_def)
  then show ?thesis
    by (simp add: message_send_def Let_def v q f n enc)
qed

lemma findOne_active_Some:
  "(\<exists>u \<in> set us. user_id u = r \<and> company_id u = cid \<and> is_active u)
   \<Longrightarrow> \<exists>u. findOne_active us r cid = Some u"
  by (cases "findOne_active us r cid") (auto simp: findOne_active_def find_None_iff)

lemma findOne_active_None:
  "(\<forall>u \<in> set us. \<not> (user_id u = r \<and> company_id u = cid \<and> is_active u))
   \<Longrightarrow> findOne_active us r cid = None"
  by (auto simp: findOne_active_def find_None_iff)

lemma valid_types_nonempty: "ty \<in> set VALID_MESSAGE_TYPES \<Longrightarrow> ty \<noteq> []"
  by (auto simp: VALID_MESSAGE_TYPES_def js_def)

lemma valid_payload:
  assumes "get_field ''receiver_id'' data = JInt r" "0 < r"
    and "get_field ''content'' data = JStr s" "1 \<le> length (trim s)" "length (trim s) \<le> 10000"
    and "get_field ''message_type'' data = JStr ty" "ty \<in> set VALID_MESSAGE_TYPES"
  shows "validateMessagePayload data =
           Inr \<lparr>receiver_id = r, content = trim s, message_type = ty\<rparr>"
proof -
  have o: "truthy data \<and> is_object data" using assms(1) by (rule get_field_object)
  have t: "validateMessageType (JStr ty) = Inr ty"
    using assms(7) valid_types_nonempty by (auto simp: validateMessageType_def)
  have c: "validateContent (JStr s) = Inr (trim s)"
    using assms(4,5) by (simp add: validateContent_ok)
  have r: "validateReceiverId (JInt r) = Inr ()"
    using assms(2) by (simp add: validateReceiverId_ok)
  show ?thesis
    unfolding validateMessagePayload_Inr using o t c r assms(1,3,6) by simp
qed

lemma hello_fields:
  "get_field ''receiver_id'' (hello_to r) = JInt r"
  "get_field ''content'' (hello_to r) = JStr (js ''hello'')"
  "get_field ''message_type'' (hello_to r) = JStr (js ''text'')"
  by (simp_all add: hello_to_def)

lemma length_js: "length (js s) = length s"
  by (simp add: js_def)

lemma trim_hello: "trim (js ''hello'') = js ''hello''"
  by (simp add: trim_def js_def is_js_whitespace_def)

lemma text_valid: "js ''text'' \<in> set VALID_MESSAGE_TYPES"
  by (simp add: VALID_MESSAGE_TYPES_def)

lemma hello_valid:
  "0 < r \<Longrightarrow> validateMessagePayload (hello_to r) =
     Inr \<lparr>receiver_id = r, content = js ''hello'', message_type = js ''text''\<rparr>"
  using valid_payload [of "hello_to r" r "js ''hello''" "js ''text''"]
  by (simp add: hello_fields trim_hello text_valid length_js)

text \<open>
  C1, as the code has it. A \<^verbatim>\<open>message:send\<close> whose receiver id is a positive integer
  naming an active user of the sender's company, other than the sender, whose trimmed
  content has 1 to 10000 characters and whose declared type is text, image or file, in a
  run where the user lookup does not fail and the database gives the row an id: the
  store's create is called exactly once, the acknowledgment is called exactly once, with
  \<^verbatim>\<open>{success: true, message}\<close>, the envelope carries the id the store assigned and the
  trimmed plaintext, and the same envelope is the one \<^verbatim>\<open>new_message\<close> emitted, to the
  room \<^verbatim>\<open>user:<receiver id>\<close>, where every socket of that room receives it.
\<close>

theorem message_send_valid:
  assumes "get_field ''receiver_id'' data = JInt r" "0 < r" "r \<noteq> user_id (user c)"
    and "\<exists>u \<in> set (users e). user_id u = r \<and> company_id u = company_id (user c) \<and> is_active u"
    and "get_field ''content'' data = JStr s" "1 \<le> length (trim s)" "length (trim s) \<le> 10000"
    and "get_field ''message_type'' data = JStr ty"
      "ty \<in> {js ''text'', js ''image'', js ''file''}"
    and "\<not> user_query_fails e" "create_result e = Some (mid, created)"
  shows "\<exists>row md. creates (message_send e c data) = [row]
      \<and> nm_company_id row = company_id (user c) \<and> nm_sender_id row = user_id (user c)
      \<and> nm_receiver_id row = r
      \<and> acks (message_send e c data) = [Sent md]
      \<and> md_id md = mid \<and> md_content md = trim s \<and> md_sender_id md = user_id (user c)
      \<and> md_receiver_id md = r \<and> md_message_type md = ty
      \<and> emits (message_send e c data) = [(user_room (JInt r), NewMessage md)]
      \<and> (\<forall>sid. sid \<in> rs (user_room (JInt r))
            \<longrightarrow> pushes_to rs (message_send e c data) sid = [NewMessage md])"
proof -
  let ?v = "\<lparr>receiver_id = r, content = trim s, message_type = ty\<rparr>"
  have ty: "ty \<in> set VALID_MESSAGE_TYPES" "message_type ?v \<in> set MESSAGE_MODEL_TYPES"
    using assms(9) by (auto simp: VALID_MESSAGE_TYPES_def MESSAGE_MODEL_TYPES_def)
  have v: "validateMessagePayload data = Inr ?v"
    using assms(1,2,5-8) ty(1) by (rule valid_payload)
  from assms(4) obtain u where
    f: "findOne_active (users e) (receiver_id ?v) (company_id (user c)) = Some u"
    using findOne_active_Some [of "users e" r "company_id (user c)"] by auto
  have n: "receiver_id ?v \<noteq> user_id (user c)" using assms(3) by simp
  from message_send_success [OF v assms(10) f n assms(11) ty(2)]
  obtain row md where *: "creates (message_send e c data) = [row]"
      "nm_company_id row = company_id (user c)" "nm_sender_id row = user_id (user c)"
      "nm_receiver_id row = r" "acks (message_send e c data) = [Sent md]"
      "emits (message_send e c data) = [(user_room (JInt r), NewMessage md)]"
      "md_id md = mid" "md_content md = trim s" "md_sender_id md = user_id (user c)"
      "md_receiver_id md = r" "md_message_type md = ty"
    by auto
  have "\<forall>sid. sid \<in> rs (user_room (JInt r))
            \<longrightarrow> pushes_to rs (message_send e c data) sid = [NewMessage md]"
    by (simp add: pushes_to_emits *(6))
  with * show ?thesis by blast
qed

lemma scenario_facts:
  "users scenario_env = [alice, bob, mallory]"
  "\<not> user_query_fails scenario_env"
  "create_result scenario_env = Some (100, 1700000000)"
  "user (conn_of sid u) = u" "socket_id (conn_of sid u) = sid"
  "user_id alice = 1" "company_id alice = 1" "is_active alice"
  "user_id bob = 2" "company_id bob = 1" "is_active bob"
  "user_id mallory = 42" "company_id mallory = 2" "is_active mallory"
  by (simp_all add: scenario_env_def conn_of_def alice_def bob_def mallory_def)

text \<open>
  Alice sends "hello" to Bob, who is connected: one row, one positive acknowledgment, and
  Bob's socket receives the envelope.
\<close>

theorem message_send_valid_witness:
  "\<exists>row md. creates (message_send scenario_env (conn_of ''socket-alice'' alice) (hello_to 2)) = [row]
      \<and> nm_receiver_id row = 2
      \<and> acks (message_send scenario_env (conn_of ''socket-alice'' alice) (hello_to 2)) = [Sent md]
      \<and> md_id md = 100 \<and> md_content md = js ''hello''
      \<and> pushes_to (rooms scenario_server)
           (message_send scenario_env (conn_of ''socket-alice'' alice) (hello_to 2)) ''socket-bob''
         = [NewMessage md]"
proof -
  have b: "''socket-bob'' \<in> rooms scenario_server (user_room (JInt 2))"
    by (simp add: scenario_server_def on_connection_def Let_def join_def scenario_facts)
  have u: "\<exists>u \<in> set (users scenario_env). user_id u = 2
             \<and> company_id u = company_id (user (conn_of ''socket-alice'' alice)) \<and> is_active u"
    by (simp add: scenario_facts)
  have t: "js ''text'' \<in> {js ''text'', js ''image'', js ''file''}" by simp
  from message_send_valid [of "hello_to 2" 2 "conn_of ''socket-alice'' alice" scenario_env
         "js ''hello''" "js ''text''" 100 1700000000 "rooms scenario_server", OF hello_fields(1) _ _ u hello_fields(2) _ _ hello_fields(3) t scenario_facts(2,3)] b
  show ?thesis
    by (simp add: trim_hello scenario_facts) (auto simp: js_def)
qed

text \<open>
  C1 as stated fails when the database rejects the insert: the same valid send from Alice
  to Bob, with \<^verbatim>\<open>Message.create\<close> throwing, is acknowledged with "Failed to save
  message" and nothing is emitted.
\<close>

theorem message_send_store_rejects:
  "findOne_active (users scenario_env) 2 (company_id alice) = Some bob
   \<and> acks (message_send (scenario_env\<lparr>create_result := None\<rparr>)
             (conn_of ''socket-alice'' alice) (hello_to 2))
       = [Failure ''Failed to save message'']
   \<and> emits (message_send (scenario_env\<lparr>create_result := None\<rparr>)
             (conn_of ''socket-alice'' alice) (hello_to 2)) = []"
proof -
  have f: "findOne_active (users scenario_env) 2 (company_id alice) = Some bob"
    by (simp add: findOne_active_def scenario_facts)
  have v: "validateMessagePayload (hello_to 2) =
     Inr \<lparr>receiver_id = 2, content = js ''hello'', message_type = js ''text''\<rparr>"
    by (rule hello_valid) simp
  show ?thesis
    using f message_send_create_fails [OF v, of "scenario_env\<lparr>create_result := None\<rparr>"
        "conn_of ''socket-alice'' alice" bob]
    by (simp add: scenario_facts scenario_env_def)
qed

text \<open>
  The types audio and video are left out of C1: the validator of the handler admits them,
  the Message model does not, so a send that is valid in every other respect calls create
  once and is answered "Failed to save message", whatever the database would do.
\<close>

lemma message_send_audio_video:
  assumes "get_field ''receiver_id'' data = JInt r" "0 < r" "r \<noteq> user_id (user c)"
    and "\<exists>u \<in> set (users e). user_id u = r \<and> company_id u = company_id (user c) \<and> is_active u"
    and "get_field ''content'' data = JStr s" "1 \<le> length (trim s)" "length (trim s) \<le> 10000"
    and "get_field ''message_type'' data = JStr ty" "ty \<in> {js ''audio'', js ''video''}"
    and "\<not> user_query_fails e"
  shows "acks (message_send e c data) = [Failure ''Failed to save message'']
       \<and> emits (message_send e c data) = []
       \<and> length (creates (message_send e c data)) = 1"
proof -
  let ?v = "\<lparr>receiver_id = r, content = trim s, message_type = ty\<rparr>"
  have ty: "ty \<in> set VALID_MESSAGE_TYPES" "message_type ?v \<notin> set MESSAGE_MODEL_TYPES"
    using assms(9) by (auto simp: VALID_MESSAGE_TYPES_def MESSAGE_MODEL_TYPES_def js_def)
  have v: "validateMessagePayload data = Inr ?v"
    using assms(1,2,5-8) ty(1) by (rule valid_payload)
  from assms(4) obtain u where
    f: "findOne_active (users e) (receiver_id ?v) (company_id (user c)) = Some u"
    using findOne_active_Some [of "users e" r "company_id (user c)"] by auto
  have n: "receiver_id ?v \<noteq> user_id (user c)" using assms(3) by simp
  show ?thesis
    using message_send_create_fails [OF v assms(10) f n] ty(2) by blast
qed

lemma message_send_no_receiver:
  assumes "validateMessagePayload data = Inr v" "\<not> user_query_fails e"
    and "findOne_active (users e) (receiver_id v) (company_id (user c)) = None"
  shows "message_send e c data =
           [Log ''warn'' ''Receiver not found or inactive'',
            Ack (Failure ''Recipient not found or inactive'')]"
  using assms by (simp add: message_send_def Let_def)

lemma creates_need_receiver:
  assumes "creates (message_send e c data) \<noteq> []"
  shows "\<exists>v u. validateMessagePayload data = Inr v
           \<and> findOne_active (users e) (receiver_id v) (company_id (user c)) = Some u"
  using assms
  by (auto simp: message_send_def Let_def split: sum.splits if_splits option.splits)

text \<open>
  C2, as the code has it. Take a \<^verbatim>\<open>message:send\<close> whose receiver id, whatever kind of
  value it is, is not the id of an active user of the sender's company (the id of a user
  of another company included), and is not an integer-valued number of magnitude
  \<open>10\<^sup>2\<^sup>1\<close> or more. The store's create is never called; and when the payload
  passes validation and the user lookup does not fail, the run is the warning and the one
  acknowledgment \<^verbatim>\<open>{success: false, error: 'Recipient not found or inactive'}\<close>.
\<close>

theorem message_send_unknown_recipient:
  assumes "\<forall>neg d r. get_field ''receiver_id'' data \<noteq> JHuge neg d r"
    and "\<forall>u \<in> set (users e).
           \<not> (get_field ''receiver_id'' data = JInt (user_id u)
              \<and> company_id u = company_id (user c) \<and> is_active u)"
  shows "creates (message_send e c data) = []
     \<and> ((\<exists>v. validateMessagePayload data = Inr v) \<and> \<not> user_query_fails e
          \<longrightarrow> message_send e c data =
                [Log ''warn'' ''Receiver not found or inactive'',
                 Ack (Failure ''Recipient not found or inactive'')])"
proof -
  have none: "findOne_active (users e) (receiver_id v) (company_id (user c)) = None"
    if v: "validateMessagePayload data = Inr v" for v
  proof -
    have i: "isInteger (get_field ''receiver_id'' data)"
      using v by (rule validated_receiver_is_integer)
    have p: "receiver_id v = parseInt (get_field ''receiver_id'' data)"
      using v by (simp add: validateMessagePayload_Inr)
    have "get_field ''receiver_id'' data = JInt (receiver_id v)"
    proof (cases "get_field ''receiver_id'' data")
      case (JInt n)
      then show ?thesis by (simp add: p)
    next
      case (JHuge neg d r)
      with assms(1) show ?thesis by blast
    qed (use i in simp_all)
    with assms(2) have "\<forall>u \<in> set (users e).
           \<not> (user_id u = receiver_id v \<and> company_id u = company_id (user c) \<and> is_active u)"
      by auto
    then show ?thesis by (rule findOne_active_None)
  qed
  have 1: "creates (message_send e c data) = []"
  proof (rule ccontr)
    assume "creates (message_send e c data) \<noteq> []"
    then obtain v u where "validateMessagePayload data = Inr v"
      "findOne_active (users e) (receiver_id v) (company_id (user c)) = Some u"
      using creates_need_receiver by blast
    then show False using none by simp
  qed
  have 2: "message_send e c data =
                [Log ''warn'' ''Receiver not found or inactive'',
                 Ack (Failure ''Recipient not found or inactive'')]"
    if "\<exists>v. validateMessagePayload data = Inr v" "\<not> user_query_fails e"
  proof -
    from that(1) obtain v where v: "validateMessagePayload data = Inr v" by blast
    show ?thesis
      using message_send_no_receiver [OF v that(2)] none [OF v] by simp
  qed
  from 1 2 show ?thesis by blast
qed

text \<open>
  Alice (company 1) sends "hello" to id 42, Mallory of company 2.
\<close>

theorem message_send_unknown_recipient_witness:
  "findOne_active (users scenario_env) 42 (company_id alice) = None
   \<and> findOne_active (users scenario_env) 42 (company_id mallory) = Some mallory
   \<and> creates (message_send scenario_env (conn_of ''socket-alice'' alice) (hello_to 42)) = []
   \<and> message_send scenario_env (conn_of ''socket-alice'' alice) (hello_to 42) =
       [Log ''warn'' ''Receiver not found or inactive'',
        Ack (Failure ''Recipient not found or inactive'')]"
proof -
  have g: "\<forall>neg d r. get_field ''receiver_id'' (hello_to 42) \<noteq> JHuge neg d r"
    by (simp add: hello_fields)
  have h: "\<forall>u \<in> set (users scenario_env).
       \<not> (get_field ''receiver_id'' (hello_to 42) = JInt (user_id u)
          \<and> company_id u = company_id (user (conn_of ''socket-alice'' alice))
          \<and> is_active u)"
    by (simp add: scenario_facts hello_fields)
  have v: "\<exists>v. validateMessagePayload (hello_to 42) = Inr v"
    using hello_valid [of 42] by simp
  show ?thesis
    using message_send_unknown_recipient [OF g h] v
    by (simp add: scenario_facts findOne_active_def)
qed

text \<open>
  C2 as stated fails when the payload is invalid: Alice sends blank content to id 42. The
  reply is the validation failure with its details, since validation precedes the lookup.
\<close>

theorem message_send_invalid_before_lookup:
  "findOne_active (users scenario_env) 42 (company_id alice) = None
   \<and> acks (message_send scenario_env (conn_of ''socket-alice'' alice)
             (JObj [(''receiver_id'', JInt 42), (''content'', JStr (js ''   ''))]))
       = [Rejected ''Invalid message data'' [''Message content cannot be empty'']]"
  by (simp add: scenario_facts message_send_def validateMessagePayload_def
        validateReceiverId_def validateContent_def validateMessageType_def error_of_def
        trim_def js_def is_js_whitespace_def Let_def findOne_active_def)

text \<open>
  The numbers C2 leaves out: \<^verbatim>\<open>receiver_id: 2e21\<close> is an integer, so validation passes,
  and \<^verbatim>\<open>parseInt\<close> reads the 2 its rendering \<^verbatim>\<open>2e+21\<close> starts with. Alice's send is
  looked up, stored and delivered for user 2.
\<close>

lemma message_send_huge_receiver:
  "\<exists>row md.
     creates (message_send scenario_env (conn_of ''socket-alice'' alice)
                (JObj [(''receiver_id'', JHuge False 2 (js ''2e+21'')),
                       (''content'', JStr (js ''hello''))])) = [row]
     \<and> nm_receiver_id row = 2
     \<and> acks (message_send scenario_env (conn_of ''socket-alice'' alice)
                (JObj [(''receiver_id'', JHuge False 2 (js ''2e+21'')),
                       (''content'', JStr (js ''hello''))])) = [Sent md]"
proof -
  let ?data = "JObj [(''receiver_id'', JHuge False 2 (js ''2e+21'')),
                     (''content'', JStr (js ''hello''))]"
  let ?v = "\<lparr>receiver_id = 2, content = js ''hello'', message_type = js ''text''\<rparr>"
  have c: "validateContent (JStr (js ''hello'')) = Inr (js ''hello'')"
    by (simp add: validateContent_ok trim_hello length_js)
  have v: "validateMessagePayload ?data = Inr ?v"
    unfolding validateMessagePayload_Inr
    by (simp add: c validateReceiverId_def validateMessageType_def)
  have f: "findOne_active (users scenario_env) (receiver_id ?v)
             (company_id (user (conn_of ''socket-alice'' alice))) = Some bob"
    by (simp add: findOne_active_def scenario_facts)
  have m: "message_type ?v \<in> set MESSAGE_MODEL_TYPES"
    by (simp add: MESSAGE_MODEL_TYPES_def)
  from message_send_success [OF v scenario_facts(2) f _ scenario_facts(3) m]
  show ?thesis by (auto simp: scenario_facts)
qed

lemma sent_ack_emitted:
  assumes "Sent md \<in> set (acks (message_send e s data))"
  shows "\<exists>p. validateMessagePayload data = Inr p \<and> md_content md = content p
           \<and> md_receiver_id md = receiver_id p
           \<and> emits (message_send e s data)
               = [(user_room (JInt (md_receiver_id md)), NewMessage md)]"
  using assms
  by (auto simp: message_send_def Let_def split: sum.splits if_splits option.splits prod.splits)

lemma register_joins:
  "socket_id a \<in> rooms (fst (register st a (JInt v))) (user_room (JInt v))"
  "snd (register st a (JInt v)) = [Log ''debug'' ''register'', Ack Ok]"
  by (simp_all add: register_def join_def)

lemma on_connection_joins:
  "socket_id c \<in> rooms (fst (on_connection st c)) (user_room (JInt (user_id (user c))))"
  by (simp add: on_connection_def join_def Let_def)

text \<open>
  C3. Whatever the company of a connection, \<^verbatim>\<open>register\<close> with a number \<open>v\<close> is
  acknowledged with success and puts the connection's socket in the room \<^verbatim>\<open>user:v\<close>,
  the room the sockets of user \<open>v\<close> join when they connect; from then on, every \<^verbatim>\<open>message:send\<close> that is acknowledged with an envelope addressed
  to \<open>v\<close> also pushes that envelope, with its plaintext content, to that socket.
\<close>

theorem register_receives_pushes:
  "socket_id a \<in> rooms (fst (register st a (JInt v))) (user_room (JInt v))
   \<and> acks (snd (register st a (JInt v))) = [Ok]
   \<and> (\<forall>st0 c. user_id (user c) = v
         \<longrightarrow> socket_id c \<in> rooms (fst (on_connection st0 c)) (user_room (JInt v)))
   \<and> (\<forall>e s data md.
         Sent md \<in> set (acks (message_send e s data)) \<and> md_receiver_id md = v
         \<longrightarrow> NewMessage md
               \<in> set (pushes_to (rooms (fst (register st a (JInt v))))
                        (message_send e s data) (socket_id a))
             \<and> (\<exists>p. validateMessagePayload data = Inr p \<and> md_content md = content p))"
proof -
  have "NewMessage md \<in> set (pushes_to (rooms (fst (register st a (JInt v))))
                        (message_send e s data) (socket_id a))
        \<and> (\<exists>p. validateMessagePayload data = Inr p \<and> md_content md = content p)"
    if h1: "Sent md \<in> set (acks (message_send e s data))" and h2: "md_receiver_id md = v"
    for e s data md
  proof -
    from sent_ack_emitted [OF h1] obtain p where
      p: "validateMessagePayload data = Inr p" "md_content md = content p"
      and em: "emits (message_send e s data) = [(user_room (JInt v), NewMessage md)]"
      using h2 by auto
    have "pushes_to (rooms (fst (register st a (JInt v)))) (message_send e s data) (socket_id a)
            = [NewMessage md]"
      using register_joins(1) [of a st v] by (simp add: pushes_to_emits em)
    with p show ?thesis by auto
  qed
  moreover have "acks (snd (register st a (JInt v))) = [Ok]"
    by (simp add: register_joins(2))
  moreover have "socket_id c \<in> rooms (fst (on_connection st0 c)) (user_room (JInt v))"
    if "user_id (user c) = v" for st0 c
    using on_connection_joins [of c st0] that by simp
  ultimately show ?thesis using register_joins(1) [of a st v] by blast
qed

text \<open>
  Mallory (company 2) registers under Bob's id 2 (company 1) and receives Alice's "hello".
\<close>

theorem register_receives_pushes_witness:
  "company_id mallory \<noteq> company_id bob
   \<and> (\<exists>md. md_content md = js ''hello''
        \<and> acks (message_send scenario_env (conn_of ''socket-alice'' alice) (hello_to 2)) = [Sent md]
        \<and> NewMessage md
            \<in> set (pushes_to
                     (rooms (fst (register scenario_server (conn_of ''socket-mallory'' mallory)
                                   (JInt 2))))
                     (message_send scenario_env (conn_of ''socket-alice'' alice) (hello_to 2))
                     ''socket-mallory''))"
proof -
  have v: "validateMessagePayload (hello_to 2) =
     Inr \<lparr>receiver_id = 2, content = js ''hello'', message_type = js ''text''\<rparr>"
    by (rule hello_valid) simp
  have f: "findOne_active (users scenario_env)
             (receiver_id \<lparr>receiver_id = 2, content = js ''hello'', message_type = js ''text''\<rparr>)
             (company_id (user (conn_of ''socket-alice'' alice))) = Some bob"
    by (simp add: findOne_active_def scenario_facts)
  have m: "message_type \<lparr>receiver_id = 2, content = js ''hello'', message_type = js ''text''\<rparr>
             \<in> set MESSAGE_MODEL_TYPES"
    by (simp add: MESSAGE_MODEL_TYPES_def)
  from message_send_success [OF v scenario_facts(2) f _ scenario_facts(3) m]
  obtain md where md: "acks (message_send scenario_env (conn_of ''socket-alice'' alice) (hello_to 2))
                        = [Sent md]"
    "md_content md = js ''hello''" "md_receiver_id md = 2"
    by (auto simp: scenario_facts)
  have "Sent md \<in> set (acks (message_send scenario_env (conn_of ''socket-alice'' alice) (hello_to 2)))"
    by (simp add: md(1))
  with md(3) register_receives_pushes
         [of "conn_of ''socket-mallory'' mallory" scenario_server 2]
  have "NewMessage md
            \<in> set (pushes_to
                     (rooms (fst (register scenario_server (conn_of ''socket-mallory'' mallory)
                                   (JInt 2))))
                     (message_send scenario_env (conn_of ''socket-alice'' alice) (hello_to 2))
                     (socket_id (conn_of ''socket-mallory'' mallory)))"
    by blast
  with md show ?thesis by (auto simp: scenario_facts)
qed

section \<open>Properties of read receipts and friend notifications\<close>

lemma read_matches_iff:
  "read_matches mid uid m \<longleftrightarrow> JInt (msg_id m) = mid \<and> msg_receiver_id m = uid"
  by (cases mid) (auto simp: read_matches_def)

text \<open>
  One run of \<^verbatim>\<open>message:read\<close> with a numeric message id, when the update does not fail:
  the rows marked read, and the effects when no row or some row has that id with the
  requesting user as receiver.
\<close>

lemma message_read_scoped:
  assumes "truthy (get_field ''message_id'' data)" "is_number (get_field ''message_id'' data)"
    and "\<not> update_fails e"
  shows "fst (message_read e c data) =
           map (\<lambda>m. if JInt (msg_id m) = get_field ''message_id'' data
                        \<and> msg_receiver_id m = user_id (user c)
                     then m\<lparr>msg_is_read := True\<rparr> else m) (messages e)
     \<and> ((\<forall>m \<in> set (messages e). \<not> (JInt (msg_id m) = get_field ''message_id'' data
                                       \<and> msg_receiver_id m = user_id (user c)))
          \<longrightarrow> snd (message_read e c data) =
                [DbUpdateRead (get_field ''message_id'' data) (user_id (user c)),
                 Ack (Updated False)])
     \<and> ((\<exists>m \<in> set (messages e). JInt (msg_id m) = get_field ''message_id'' data
                                    \<and> msg_receiver_id m = user_id (user c))
          \<longrightarrow> emits (snd (message_read e c data)) =
                [(user_room (get_field ''sender_id'' data),
                  ReadAck (get_field ''message_id'' data) (user_id (user c)))]
              \<and> acks (snd (message_read e c data)) = [Updated True])"
proof -
  let ?mid = "get_field ''message_id'' data"
  let ?uid = "user_id (user c)"
  have n0: "filter (read_matches ?mid ?uid) (messages e) = []"
    if "\<forall>m \<in> set (messages e). \<not> (JInt (msg_id m) = ?mid \<and> msg_receiver_id m = ?uid)"
    using that by (simp add: filter_empty_conv read_matches_iff)
  have n1: "filter (read_matches ?mid ?uid) (messages e) \<noteq> []"
    if "\<exists>m \<in> set (messages e). JInt (msg_id m) = ?mid \<and> msg_receiver_id m = ?uid"
    using that by (simp add: filter_empty_conv read_matches_iff)
  show ?thesis
    using assms n0 n1
    by (auto simp: message_read_def update_read_def Let_def read_matches_iff)
qed

lemma scenario_messages:
  "messages scenario_env = [\<lparr>msg_id = 7, msg_company_id = 1, msg_sender_id = 2,
                                msg_receiver_id = 1, msg_is_read = False\<rparr>]"
  "\<not> update_fails scenario_env"
  by (simp_all add: scenario_env_def)

lemma dec_nat_digit: "n < 10 \<Longrightarrow> dec_nat n = [0x30 + of_nat n]"
  by (simp add: dec_nat.simps)

lemma room_names:
  "user_room (JInt 2) = js ''user:2''" "user_room (JInt 42) = js ''user:42''"
  "user_room (JInt 1) = js ''user:1''"
  "company_room 1 = js ''company:1''" "company_room 2 = js ''company:2''"
  by (simp_all add: user_room_def company_room_def dec_int_def js_def
        dec_nat.simps [of 42] dec_nat_digit)

lemma scenario_rooms:
  "rooms scenario_server (js ''user:2'') = {''socket-bob''}"
  "rooms scenario_server (js ''user:42'') = {''socket-mallory''}"
  "rooms scenario_server (js ''user:1'') = {}"
  by (simp_all add: scenario_server_def on_connection_def Let_def join_def scenario_facts room_names)
     (simp_all add: js_def)

text \<open>
  C8 at its failing input. The handler's comment says "Notify sender", but the handler
  never reads who sent the message: the room of the read acknowledgment is
  \<^verbatim>\<open>user:<sender_id>\<close> with \<^verbatim>\<open>sender_id\<close> taken from the request. Whenever a row with
  the message id is addressed to the requesting user (whoever sent it, and whether or not
  it was read already, since the \<^verbatim>\<open>where\<close> clause has no \<^verbatim>\<open>is_read\<close> filter), the reply
  is \<^verbatim>\<open>{success: true, updated: true}\<close>, every socket of the named room receives the
  acknowledgment and every socket outside it receives nothing.
\<close>

theorem message_read_ack_to_named_room:
  assumes "truthy (get_field ''message_id'' data)" "is_number (get_field ''message_id'' data)"
    and "\<not> update_fails e"
    and "m \<in> set (messages e)" "JInt (msg_id m) = get_field ''message_id'' data"
      "msg_receiver_id m = user_id (user c)"
    and "named \<in> rs (user_room (get_field ''sender_id'' data))"
    and "other \<notin> rs (user_room (get_field ''sender_id'' data))"
  shows "acks (snd (message_read e c data)) = [Updated True]
     \<and> pushes_to rs (snd (message_read e c data)) named
         = [ReadAck (get_field ''message_id'' data) (user_id (user c))]
     \<and> pushes_to rs (snd (message_read e c data)) other = []"
proof -
  have "\<exists>m \<in> set (messages e). JInt (msg_id m) = get_field ''message_id'' data
                                    \<and> msg_receiver_id m = user_id (user c)"
    using assms(4-6) by blast
  with message_read_scoped [OF assms(1-3), of c]
  have "emits (snd (message_read e c data)) =
                [(user_room (get_field ''sender_id'' data),
                  ReadAck (get_field ''message_id'' data) (user_id (user c)))]"
    and "acks (snd (message_read e c data)) = [Updated True]"
    by blast+
  then show ?thesis using assms(7,8) by (simp add: pushes_to_emits)
qed

text \<open>
  Message 7 is from Bob to Alice. Alice marks it read with \<^verbatim>\<open>sender_id: 42\<close>: a row
  is affected, the socket of Bob, who sent the message, receives nothing, and the socket
  of Mallory of company 2 receives the read acknowledgment.
\<close>

theorem message_read_ack_to_named_room_witness:
  "map (\<lambda>m. (msg_id m, msg_sender_id m, msg_receiver_id m)) (messages scenario_env)
     = [(7, user_id bob, user_id alice)]
   \<and> acks (snd (message_read scenario_env (conn_of ''socket-alice'' alice)
                   (JObj [(''message_id'', JInt 7), (''sender_id'', JInt 42)])))
       = [Updated True]
   \<and> pushes_to (rooms scenario_server)
        (snd (message_read scenario_env (conn_of ''socket-alice'' alice)
                (JObj [(''message_id'', JInt 7), (''sender_id'', JInt 42)])))
        ''socket-bob'' = []
   \<and> pushes_to (rooms scenario_server)
        (snd (message_read scenario_env (conn_of ''socket-alice'' alice)
                (JObj [(''message_id'', JInt 7), (''sender_id'', JInt 42)])))
        ''socket-mallory'' = [ReadAck (JInt 7) 1]"
proof -
  let ?data = "JObj [(''message_id'', JInt 7), (''sender_id'', JInt 42)]"
  let ?m = "\<lparr>msg_id = 7, msg_company_id = 1, msg_sender_id = 2,
             msg_receiver_id = 1, msg_is_read = False\<rparr>"
  have t: "truthy (get_field ''message_id'' ?data)" "is_number (get_field ''message_id'' ?data)"
    by simp_all
  have m: "?m \<in> set (messages scenario_env)" "JInt (msg_id ?m) = get_field ''message_id'' ?data"
    "msg_receiver_id ?m = user_id (user (conn_of ''socket-alice'' alice))"
    by (simp_all add: scenario_messages scenario_facts)
  have r: "''socket-mallory'' \<in> rooms scenario_server (user_room (get_field ''sender_id'' ?data))"
    "''socket-bob'' \<notin> rooms scenario_server (user_room (get_field ''sender_id'' ?data))"
    by (simp_all add: room_names scenario_rooms)
  show ?thesis
    using message_read_ack_to_named_room
            [of ?data scenario_env ?m "conn_of ''socket-alice'' alice"
                "''socket-mallory''" "rooms scenario_server" "''socket-bob''"]
          t scenario_messages(2) m r
    by (simp add: scenario_messages scenario_facts)
qed

text \<open>
  C9 at its failing inputs. If a user with id \<open>r\<close> exists in any company and a socket
  is in the room \<^verbatim>\<open>user:r\<close>, then \<^verbatim>\<open>friend:request:sent {receiver_id: r}\<close> and
  \<^verbatim>\<open>friend:request:accepted {sender_id: r}\<close> from any connection each push their
  notification to that socket and reply with success: the company of the counterparty is
  never compared with the sender's.
\<close>

theorem friend_notifications_cross_tenants:
  assumes "find (\<lambda>u. user_id u = r) (users e) = Some u" "r \<noteq> 0"
    and "\<not> user_query_fails e" "sid \<in> rs (user_room (JInt r))"
  shows "pushes_to rs (friend_request_sent e c (JObj [(''receiver_id'', JInt r)])) sid
           = [FriendRequestReceived (user_id (user c)) (display_name (user c))]
     \<and> acks (friend_request_sent e c (JObj [(''receiver_id'', JInt r)])) = [Ok]
     \<and> pushes_to rs (friend_request_accepted e c (JObj [(''sender_id'', JInt r)])) sid
           = [FriendRequestAccepted (user_id (user c)) (display_name (user c))]
     \<and> acks (friend_request_accepted e c (JObj [(''sender_id'', JInt r)])) = [Ok]"
  using assms
  by (simp add: friend_request_sent_def friend_request_accepted_def findByPk_def Let_def)

text \<open>
  Alice of company 1 notifies id 42; Mallory of company 2 receives both notifications.
\<close>

theorem friend_notifications_cross_tenants_witness:
  "company_id mallory \<noteq> company_id alice
   \<and> pushes_to (rooms scenario_server)
        (friend_request_sent scenario_env (conn_of ''socket-alice'' alice)
           (JObj [(''receiver_id'', JInt 42)]))
        ''socket-mallory'' = [FriendRequestReceived 1 (js ''alice'')]
   \<and> pushes_to (rooms scenario_server)
        (friend_request_accepted scenario_env (conn_of ''socket-alice'' alice)
           (JObj [(''sender_id'', JInt 42)]))
        ''socket-mallory'' = [FriendRequestAccepted 1 (js ''alice'')]"
proof -
  have f: "find (\<lambda>u. user_id u = 42) (users scenario_env) = Some mallory"
    by (simp add: scenario_facts)
  have m: "''socket-mallory'' \<in> rooms scenario_server (user_room (JInt 42))"
    by (simp add: room_names scenario_rooms)
  have d: "display_name alice = js ''alice''"
    by (simp add: display_name_def alice_def)
  show ?thesis
    using f m friend_notifications_cross_tenants
            [of 42 scenario_env mallory "''socket-mallory''" "rooms scenario_server"
                "conn_of ''socket-alice'' alice"]
    by (simp add: scenario_facts d)
qed

section \<open>Properties of the client's replay\<close>

lemma sendMessageAsync_frame: "fst (sendMessageAsync ch text r t answer) = ch"
  by (simp add: sendMessageAsync_def)

lemma sendMessageAsync_cases:
  obtains emitted outcome where
    "sendMessageAsync ch text r t answer = (ch, emitted, outcome)"
    "message_sends emitted =
       (if has_socket ch \<and> connectionState ch = Connected then [(r, trim text)] else [])"
  by (cases "has_socket ch \<and> connectionState ch = Connected")
     (auto simp: sendMessageAsync_def)

lemma resend_loop_frame: "fst (resend_loop ch pending answers) = ch"
proof (induction pending arbitrary: ch)
  case Nil
  show ?case by simp
next
  case (Cons a pending)
  obtain t m where a: "a = (t, m)" by (cases a)
  obtain emitted outcome where
    s: "sendMessageAsync ch (pm_content m) (pm_receiverId m) (Some t) (answers t)
          = (ch, emitted, outcome)"
    by (rule sendMessageAsync_cases)
  obtain later where l: "resend_loop ch pending answers = (ch, later)"
    using Cons.IH [of ch] by (cases "resend_loop ch pending answers") simp
  show ?case by (simp add: a s l)
qed

lemma resendPendingMessages_frame: "fst (resendPendingMessages ch answers) = ch"
  using resend_loop_frame [of ch "pendingMessages ch" answers]
  by (auto simp: resendPendingMessages_def split: prod.splits)

lemma message_sends_append: "message_sends (xs @ ys) = message_sends xs @ message_sends ys"
  by (induction xs rule: message_sends.induct) simp_all

lemma message_sends_console: "message_sends (case outcome of Resolved r \<Rightarrow> [] | RejectedWith err \<Rightarrow> [Console w]) = []"
  by (cases outcome) simp_all

lemma resend_loop_sends:
  "has_socket ch \<Longrightarrow> connectionState ch = Connected \<Longrightarrow>
   message_sends (snd (resend_loop ch pending answers)) =
     map (\<lambda>(t, m). (pm_receiverId m, trim (pm_content m))) pending"
proof (induction pending)
  case Nil
  show ?case by simp
next
  case (Cons a pending)
  obtain t m where a: "a = (t, m)" by (cases a)
  obtain emitted outcome where
    s: "sendMessageAsync ch (pm_content m) (pm_receiverId m) (Some t) (answers t)
          = (ch, emitted, outcome)"
    and e: "message_sends emitted =
       (if has_socket ch \<and> connectionState ch = Connected
        then [(pm_receiverId m, trim (pm_content m))] else [])"
    by (rule sendMessageAsync_cases)
  obtain later where l: "resend_loop ch pending answers = (ch, later)"
    using resend_loop_frame [of ch pending answers]
    by (cases "resend_loop ch pending answers") simp
  have "message_sends later = map (\<lambda>(t, m). (pm_receiverId m, trim (pm_content m))) pending"
    using Cons l by simp
  then show ?case
    using Cons.prems by (simp add: a s l e message_sends_append message_sends_console)
qed

lemma resendPendingMessages_sends:
  "has_socket ch \<Longrightarrow> connectionState ch = Connected \<Longrightarrow>
   message_sends (snd (resendPendingMessages ch answers)) =
     map (\<lambda>(t, m). (pm_receiverId m, trim (pm_content m))) (pendingMessages ch)"
  using resend_loop_sends [of ch "pendingMessages ch" answers]
  by (auto simp: resendPendingMessages_def split: prod.splits)

lemma on_connect_state:
  "fst (on_connect ch answers) = ch\<lparr>connectionState := Connected, reconnectAttempts := 0\<rparr>"
  using resendPendingMessages_frame
          [of "ch\<lparr>connectionState := Connected, reconnectAttempts := 0\<rparr>" answers]
  by (auto simp: on_connect_def Let_def split: prod.splits)

lemma on_connect_sends:
  "has_socket ch \<Longrightarrow>
   message_sends (snd (on_connect ch answers)) =
     map (\<lambda>(t, m). (pm_receiverId m, trim (pm_content m))) (pendingMessages ch)"
  using resendPendingMessages_sends
          [of "ch\<lparr>connectionState := Connected, reconnectAttempts := 0\<rparr>" answers]
  by (auto simp: on_connect_def Let_def split: prod.splits)

lemma ack_deletes:
  "tempId \<notin> fst ` set (pendingMessages (fst (sendMessage_ack ch tempId (Success m))))"
  by (auto simp: sendMessage_ack_def map_delete_def)

text \<open>
  C10. Replaying the pending messages leaves \<^verbatim>\<open>pendingMessages\<close> as it was, whatever
  the server answers, and so does the whole \<^verbatim>\<open>connect\<close> listener; with a socket, each
  connect emits a \<^verbatim>\<open>message:send\<close> for every pending entry in the Map's order, and the
  next connect emits the same again; the acknowledgment callback of the interactive send
  is what deletes an entry.
\<close>

theorem replay_keeps_pending:
  "pendingMessages (fst (resendPendingMessages ch answers)) = pendingMessages ch
   \<and> pendingMessages (fst (on_connect ch answers)) = pendingMessages ch
   \<and> (has_socket ch \<longrightarrow>
        message_sends (snd (on_connect ch answers)) =
          map (\<lambda>(t, m). (pm_receiverId m, trim (pm_content m))) (pendingMessages ch)
        \<and> message_sends (snd (on_connect (fst (on_connect ch answers)) answers')) =
          map (\<lambda>(t, m). (pm_receiverId m, trim (pm_content m))) (pendingMessages ch))
   \<and> tempId \<notin> fst ` set (pendingMessages (fst (sendMessage_ack ch tempId (Success m))))"
  by (simp add: resendPendingMessages_frame on_connect_state on_connect_sends ack_deletes)

text \<open>
  Two pending sends, each replay acknowledged with success: both are sent at the first
  connect, both again at the second, and both are still pending.
\<close>

theorem replay_keeps_pending_witness:
  "has_socket scenario_chat
   \<and> message_sends (snd (on_connect scenario_chat (\<lambda>t. Some (Success JNull))))
       = [(2, js ''one''), (2, js ''two'')]
   \<and> message_sends
        (snd (on_connect (fst (on_connect scenario_chat (\<lambda>t. Some (Success JNull))))
                (\<lambda>t. Some (Success JNull))))
       = [(2, js ''one''), (2, js ''two'')]
   \<and> map fst (pendingMessages (fst (on_connect scenario_chat (\<lambda>t. Some (Success JNull)))))
       = [1001, 1002]"
proof -
  have h: "has_socket scenario_chat" by (simp add: scenario_chat_def)
  have t: "trim (js ''one'') = js ''one''" "trim (js ''two'') = js ''two''"
    by (simp_all add: trim_def js_def is_js_whitespace_def)
  have p: "pendingMessages scenario_chat =
        [(1001, \<lparr>pm_content = js ''one'', pm_receiverId = 2, pm_tempId = 1001\<rparr>),
         (1002, \<lparr>pm_content = js ''two'', pm_receiverId = 2, pm_tempId = 1002\<rparr>)]"
    by (simp add: scenario_chat_def)
  show ?thesis
    using h replay_keeps_pending
            [of scenario_chat "\<lambda>t. Some (Success JNull)" "\<lambda>t. Some (Success JNull)"]
    by (simp add: p t)
qed

section \<open>Properties of the content cipher\<close>

lemma lt16: "n < 16 \<Longrightarrow> n \<in> {0,1,2,3,4,5,6,7,8,9,10,11,12,13,14,15::nat}"
  by simp arith

lemma hex_value_digit: "n < 16 \<Longrightarrow> hex_value (hex_digit n) = Some n"
  by (drule lt16) (elim insertE emptyE; simp add: hex_value_def hex_digit_def)

lemma byte_div16: "unat (b :: byte) div 16 < 16"
  using unsigned_less [of b, where 'a = nat] by simp

lemma hex_decode_encode: "hex_decode (hex_encode bs) = bs"
proof (induction bs)
  case Nil
  show ?case by (simp add: hex_encode_def)
next
  case (Cons b bs)
  have 1: "hex_value (hex_digit (unat b div 16)) = Some (unat b div 16)"
    by (rule hex_value_digit) (rule byte_div16)
  have 2: "hex_value (hex_digit (unat b mod 16)) = Some (unat b mod 16)"
    by (rule hex_value_digit) simp
  have 3: "(of_nat (16 * (unat b div 16) + unat b mod 16) :: byte) = b"
    by simp
  have "hex_encode (b # bs) = hex_digit (unat b div 16) # hex_digit (unat b mod 16) # hex_encode bs"
    by (simp add: hex_encode_def)
  then show ?case
    using Cons by (simp add: 1 2 3)
qed

lemma length_hex_encode: "length (hex_encode bs) = 2 * length bs"
  by (induction bs) (simp_all add: hex_encode_def)

lemma is_hex_string_encode: "bs \<noteq> [] \<Longrightarrow> is_hex_string (hex_encode bs)"
proof -
  have "hex_value u \<noteq> None" if "u \<in> set (hex_encode bs)" for u
  proof -
    from that obtain b :: byte
      where "u = hex_digit (unat b div 16) \<or> u = hex_digit (unat b mod 16)"
      unfolding hex_encode_def by auto
    then show ?thesis using hex_value_digit [OF byte_div16 [of b]] hex_value_digit [of "unat b mod 16"] by auto
  qed
  moreover assume "bs \<noteq> []"
  ultimately show ?thesis by (cases bs) (auto simp: is_hex_string_def hex_encode_def)
qed

lemma blocks16_Nil: "blocks16 [] = []"
  by (simp add: blocks16.simps)

lemma blocks16_step: "bs \<noteq> [] \<Longrightarrow> blocks16 bs = take 16 bs # blocks16 (drop 16 bs)"
  by (subst blocks16.simps) simp

lemma concat_blocks16: "concat (blocks16 bs) = bs"
proof (induction bs rule: blocks16.induct)
  case (1 bs)
  show ?case
  proof (cases "bs = []")
    case True
    then show ?thesis by (simp add: blocks16_Nil)
  next
    case False
    have "concat (blocks16 (drop 16 bs)) = drop 16 bs" using 1 False by blast
    then show ?thesis by (simp add: blocks16_step [OF False])
  qed
qed

lemma blocks16_concat:
  "list_all (\<lambda>b. length b = 16) bss \<Longrightarrow> blocks16 (concat bss) = bss"
proof (induction bss)
  case Nil
  show ?case by (simp add: blocks16_Nil)
next
  case (Cons b bss)
  then have l: "length b = 16" by simp
  then have ne: "b @ concat bss \<noteq> []" by auto
  have "blocks16 (concat bss) = bss" using Cons by simp
  then show ?case using l by (simp add: blocks16_step [OF ne])
qed

lemma length_xor_bytes: "length (xor_bytes a b) = min (length a) (length b)"
  by (simp add: xor_bytes_def)

lemma xor_bytes_cancel: "length p = length v \<Longrightarrow> xor_bytes (xor_bytes p v) v = p"
  by (induction p v rule: list_induct2) (simp_all add: xor_bytes_def xor.assoc)

lemma xor_tamper_byte: "(x XOR y) XOR (y XOR d) = x XOR (d :: byte)"
proof -
  have "(x XOR y) XOR (y XOR d) = x XOR ((y XOR y) XOR d)"
    by (simp only: xor.assoc)
  then show ?thesis by simp
qed

lemma xor_bytes_tamper:
  "length p = length v \<Longrightarrow> xor_bytes (xor_bytes p v) (xor_first d v) = xor_first d p"
proof (induction p v rule: list_induct2)
  case Nil
  show ?case by (simp add: xor_bytes_def xor_first_def)
next
  case (Cons x xs y ys)
  have "xor_bytes (xor_bytes xs ys) ys = xs" using Cons.hyps by (rule xor_bytes_cancel)
  then have "map2 (XOR) (map2 (XOR) xs ys) ys = xs" by (simp add: xor_bytes_def)
  then show ?case by (simp add: xor_bytes_def xor_first_def xor_tamper_byte)
qed

lemma block_cipherD:
  "block_cipher E D \<Longrightarrow> length b = 16 \<Longrightarrow> length (E b) = 16"
  "block_cipher E D \<Longrightarrow> length b = 16 \<Longrightarrow> D (E b) = b"
  by (simp_all add: block_cipher_def)

lemma cbc_roundtrip:
  assumes bc: "block_cipher E D"
  shows "length v = 16 \<Longrightarrow> list_all (\<lambda>p. length p = 16) ps \<Longrightarrow>
         cbc_decrypt D v (cbc_encrypt E v ps) = ps"
proof (induction ps arbitrary: v)
  case Nil
  show ?case by simp
next
  case (Cons p ps)
  have lp: "length p = 16" using Cons.prems by simp
  have lx: "length (xor_bytes p v) = 16" using lp Cons.prems(1) by (simp add: length_xor_bytes)
  have d: "D (E (xor_bytes p v)) = xor_bytes p v" using bc lx by (rule block_cipherD)
  have le: "length (E (xor_bytes p v)) = 16" using bc lx by (rule block_cipherD)
  have "cbc_decrypt D (E (xor_bytes p v)) (cbc_encrypt E (E (xor_bytes p v)) ps) = ps"
    using Cons.IH [OF le] Cons.prems(2) by simp
  moreover have "xor_bytes (xor_bytes p v) v = p"
    using lp Cons.prems(1) by (simp add: xor_bytes_cancel)
  ultimately show ?case by (simp add: Let_def d)
qed

lemma cbc_encrypt_lengths:
  assumes bc: "block_cipher E D"
  shows "length v = 16 \<Longrightarrow> list_all (\<lambda>p. length p = 16) ps \<Longrightarrow>
         list_all (\<lambda>c. length c = 16) (cbc_encrypt E v ps)"
proof (induction ps arbitrary: v)
  case Nil
  show ?case by simp
next
  case (Cons p ps)
  have lp: "length p = 16" using Cons.prems by simp
  have lx: "length (xor_bytes p v) = 16" using lp Cons.prems(1) by (simp add: length_xor_bytes)
  have le: "length (E (xor_bytes p v)) = 16" using bc lx by (rule block_cipherD)
  have "list_all (\<lambda>c. length c = 16) (cbc_encrypt E (E (xor_bytes p v)) ps)"
    using Cons.IH [OF le] Cons.prems(2) by simp
  then show ?case using le by (simp add: Let_def)
qed

lemma cbc_tampered_iv:
  assumes bc: "block_cipher E D"
    and lv: "length v = 16" and lp: "length p = 16" and lps: "list_all (\<lambda>q. length q = 16) ps"
  shows "cbc_decrypt D (xor_first d v) (cbc_encrypt E v (p # ps)) = xor_first d p # ps"
proof -
  have lx: "length (xor_bytes p v) = 16" using lv lp by (simp add: length_xor_bytes)
  have dd: "D (E (xor_bytes p v)) = xor_bytes p v" using bc lx by (rule block_cipherD)
  have le: "length (E (xor_bytes p v)) = 16" using bc lx by (rule block_cipherD)
  have "cbc_decrypt D (E (xor_bytes p v)) (cbc_encrypt E (E (xor_bytes p v)) ps) = ps"
    using cbc_roundtrip [OF bc le lps] .
  moreover have "xor_bytes (xor_bytes p v) (xor_first d v) = xor_first d p"
    using lv lp by (simp add: xor_bytes_tamper)
  ultimately show ?thesis by (simp add: Let_def dd)
qed


lemma blocks16_lengths:
  "length bs mod 16 = 0 \<Longrightarrow> list_all (\<lambda>b. length b = 16) (blocks16 bs)"
proof (induction bs rule: blocks16.induct)
  case (1 bs)
  show ?case
  proof (cases "bs = []")
    case True
    then show ?thesis by (simp add: blocks16_Nil)
  next
    case False
    have l: "16 \<le> length bs"
    proof (rule ccontr)
      assume "\<not> 16 \<le> length bs"
      then have "length bs mod 16 = length bs" by simp
      with "1.prems" have "length bs = 0" by simp
      with False show False by simp
    qed
    then obtain k where k: "length bs = 16 + k" using le_Suc_ex by blast
    have "k mod 16 = 0" using "1.prems" unfolding k by simp
    then have "length (drop 16 bs) mod 16 = 0" using k by simp
    with "1.IH" False have "list_all (\<lambda>b. length b = 16) (blocks16 (drop 16 bs))" by blast
    moreover have "length (take 16 bs) = 16" using l by simp
    ultimately show ?thesis by (simp add: blocks16_step [OF False])
  qed
qed

lemma unat_pad_byte: "n \<le> 16 \<Longrightarrow> unat (of_nat n :: byte) = n"
  by (simp add: unat_of_nat)

lemma length_pkcs7_pad: "length (pkcs7_pad bs) mod 16 = 0"
proof -
  have "(length bs + (16 - length bs mod 16)) mod 16 = 0"
    by presburger
  then show ?thesis by (simp add: pkcs7_pad_def Let_def)
qed


lemma pkcs7_pad_nonempty: "pkcs7_pad bs \<noteq> []"
  by (simp add: pkcs7_pad_def Let_def)

lemma pkcs7_unpad_pad: "pkcs7_unpad (pkcs7_pad bs) = Some bs"
proof -
  define n where "n = 16 - length bs mod 16"
  have n: "0 < n" "n \<le> 16" by (simp_all add: n_def)
  have p: "pkcs7_pad bs = bs @ replicate n (of_nat n)"
    by (simp add: pkcs7_pad_def Let_def n_def)
  have l: "last (bs @ replicate n (of_nat n :: byte)) = of_nat n"
    using n(1) by (cases n) simp_all
  have u: "unat (of_nat n :: byte) = n" using n(2) by (rule unat_pad_byte)
  have ne: "bs @ replicate n (of_nat n :: byte) \<noteq> []" using n(1) by simp
  show ?thesis
    unfolding p pkcs7_unpad_def using n ne by (simp add: l u Let_def)
qed

lemma xor_first_length: "length (xor_first d bs) = length bs"
  by (cases bs) (simp_all add: xor_first_def)

lemma xor_first_append: "bs \<noteq> [] \<Longrightarrow> xor_first d (bs @ cs) = xor_first d bs @ cs"
  by (cases bs) (simp_all add: xor_first_def)

lemma pkcs7_pad_tamper: "bs \<noteq> [] \<Longrightarrow> xor_first d (pkcs7_pad bs) = pkcs7_pad (xor_first d bs)"
  by (simp add: pkcs7_pad_def Let_def xor_first_append xor_first_length)

lemma utf8_of_code_point_nonempty: "utf8_of_code_point cp \<noteq> []"
  by (simp add: utf8_of_code_point_def)

lemma utf8_encode_nonempty: "s \<noteq> [] \<Longrightarrow> utf8_encode s \<noteq> []"
  by (induction s rule: utf8_encode.induct) (simp_all add: utf8_of_code_point_nonempty)

lemma length_randomBytes: "length (randomBytes ce n) = n"
  by (simp add: randomBytes_def)

lemma padded_blocks:
  obtains p ps where "blocks16 (pkcs7_pad bs) = p # ps" "length p = 16"
    "list_all (\<lambda>q. length q = 16) ps" "concat (p # ps) = pkcs7_pad bs"
proof -
  have a: "list_all (\<lambda>q. length q = 16) (blocks16 (pkcs7_pad bs))"
    using length_pkcs7_pad by (rule blocks16_lengths)
  have "blocks16 (pkcs7_pad bs) \<noteq> []"
    by (simp add: blocks16_step [OF pkcs7_pad_nonempty])
  then obtain p ps where b: "blocks16 (pkcs7_pad bs) = p # ps"
    by (cases "blocks16 (pkcs7_pad bs)") auto
  have "concat (p # ps) = pkcs7_pad bs" using concat_blocks16 [of "pkcs7_pad bs"] b by simp
  with a b that show ?thesis by simp
qed


lemma length_concat_blocks:
  "list_all (\<lambda>b. length b = 16) bss \<Longrightarrow> length (concat bss) = 16 * length bss"
  by (induction bss) simp_all

lemma encrypted_blocks:
  assumes bc: "block_cipher E D" and lv: "length v = 16"
  obtains p ps cs where "blocks16 (pkcs7_pad bs) = p # ps" "length p = 16"
    "list_all (\<lambda>q. length q = 16) ps" "concat (p # ps) = pkcs7_pad bs"
    "cbc_encrypt E v (blocks16 (pkcs7_pad bs)) = cs" "cs \<noteq> []"
    "list_all (\<lambda>c. length c = 16) cs" "concat cs \<noteq> []" "length (concat cs) mod 16 = 0"
    "blocks16 (concat cs) = cs"
proof -
  obtain p ps where b: "blocks16 (pkcs7_pad bs) = p # ps" "length p = 16"
    "list_all (\<lambda>q. length q = 16) ps" "concat (p # ps) = pkcs7_pad bs"
    by (rule padded_blocks)
  define cs where "cs = cbc_encrypt E v (p # ps)"
  have l: "list_all (\<lambda>c. length c = 16) cs"
    unfolding cs_def using bc lv by (rule cbc_encrypt_lengths) (simp add: b)
  have ne: "cs \<noteq> []" by (simp add: cs_def Let_def)
  have len: "length (concat cs) = 16 * length cs" using l by (rule length_concat_blocks)
  have cne: "concat cs \<noteq> []"
  proof
    assume "concat cs = []"
    then have "length (concat cs) = 0" by (simp only: list.size)
    with len ne show False by simp
  qed
  have m: "length (concat cs) mod 16 = 0" using len by simp
  have bl: "blocks16 (concat cs) = cs" using l by (rule blocks16_concat)
  show ?thesis using that [OF b _ ne l cne m bl] by (simp add: b(1) cs_def)
qed

lemma decipher_roundtrip:
  assumes bc: "block_cipher (block_encrypt ce) (block_decrypt ce)" and lv: "length v = 16"
  shows "decipher ce v (concat (cbc_encrypt (block_encrypt ce) v (blocks16 (pkcs7_pad bs))))
           = Some bs"
proof -
  obtain p ps cs where b: "blocks16 (pkcs7_pad bs) = p # ps" "length p = 16"
    "list_all (\<lambda>q. length q = 16) ps" "concat (p # ps) = pkcs7_pad bs"
    "cbc_encrypt (block_encrypt ce) v (blocks16 (pkcs7_pad bs)) = cs" "cs \<noteq> []"
    "list_all (\<lambda>c. length c = 16) cs" "concat cs \<noteq> []" "length (concat cs) mod 16 = 0"
    "blocks16 (concat cs) = cs"
    using bc lv by (rule encrypted_blocks)
  have "cbc_decrypt (block_decrypt ce) v (cbc_encrypt (block_encrypt ce) v (p # ps)) = p # ps"
    using bc lv by (rule cbc_roundtrip) (simp add: b)
  then have "cbc_decrypt (block_decrypt ce) v cs = p # ps" using b(1,5) by simp
  then have "concat (cbc_decrypt (block_decrypt ce) v (blocks16 (concat cs))) = pkcs7_pad bs"
    using b(4,10) by simp
  then show ?thesis
    unfolding b(5) decipher_def using b(8,9) by (simp add: pkcs7_unpad_pad)
qed

lemma decipher_tampered_iv:
  assumes bc: "block_cipher (block_encrypt ce) (block_decrypt ce)" and lv: "length v = 16"
    and ne: "bs \<noteq> []"
  shows "decipher ce (xor_first d v)
           (concat (cbc_encrypt (block_encrypt ce) v (blocks16 (pkcs7_pad bs))))
           = Some (xor_first d bs)"
proof -
  obtain p ps cs where b: "blocks16 (pkcs7_pad bs) = p # ps" "length p = 16"
    "list_all (\<lambda>q. length q = 16) ps" "concat (p # ps) = pkcs7_pad bs"
    "cbc_encrypt (block_encrypt ce) v (blocks16 (pkcs7_pad bs)) = cs" "cs \<noteq> []"
    "list_all (\<lambda>c. length c = 16) cs" "concat cs \<noteq> []" "length (concat cs) mod 16 = 0"
    "blocks16 (concat cs) = cs"
    using bc lv by (rule encrypted_blocks)
  have pne: "p \<noteq> []" using b(2) by auto
  have "cbc_decrypt (block_decrypt ce) (xor_first d v)
          (cbc_encrypt (block_encrypt ce) v (p # ps)) = xor_first d p # ps"
    using bc lv b(2,3) by (rule cbc_tampered_iv)
  then have "cbc_decrypt (block_decrypt ce) (xor_first d v) cs = xor_first d p # ps"
    using b(1,5) by simp
  then have "concat (cbc_decrypt (block_decrypt ce) (xor_first d v) (blocks16 (concat cs)))
               = xor_first d p @ concat ps"
    using b(10) by simp
  also have "\<dots> = xor_first d (p @ concat ps)"
    using pne by (simp add: xor_first_append)
  also have "\<dots> = xor_first d (pkcs7_pad bs)"
    using b(4) by simp
  also have "\<dots> = pkcs7_pad (xor_first d bs)"
    using ne by (rule pkcs7_pad_tamper)
  finally show ?thesis
    unfolding b(5) decipher_def using b(8,9) by (simp add: pkcs7_unpad_pad)
qed


lemma xor_first_changes: "d \<noteq> 0 \<Longrightarrow> bs \<noteq> [] \<Longrightarrow> xor_first d bs \<noteq> bs"
proof (cases bs)
  case Nil
  assume "bs \<noteq> []"
  with Nil show ?thesis by simp
next
  case (Cons b rest)
  assume d: "d \<noteq> 0"
  have "b XOR d \<noteq> b"
  proof
    assume "b XOR d = b"
    then have "b XOR (b XOR d) = b XOR b" by simp
    then have "d = 0" by (simp add: xor.assoc [symmetric])
    with d show False by simp
  qed
  then show ?thesis by (simp add: Cons xor_first_def)
qed

lemma encryptMessage_Inr:
  assumes "encryptMessage ce (JStr s) = Inr (enc, ivh)"
  shows "s \<noteq> []"
    and "ivh = hex_encode (randomBytes ce 16)"
    and "enc = hex_encode (concat (cbc_encrypt (block_encrypt ce) (randomBytes ce 16)
                                    (blocks16 (pkcs7_pad (utf8_encode s)))))"
  using assms by (auto simp: encryptMessage_def Let_def split: if_splits)

lemma decryptMessage_hex:
  assumes "data \<noteq> []" "length v = 16"
  shows "decryptMessage ce (JStr (hex_encode data)) (JStr (hex_encode v)) =
           (case decipher ce v data of
              None \<Rightarrow> Inl ''Decryption failed''
            | Some plain \<Rightarrow> Inr (utf8_decode ce plain))"
proof -
  have v: "v \<noteq> []" using assms(2) by auto
  show ?thesis
    using assms
    by (simp add: decryptMessage_def is_hex_string_encode v length_hex_encode hex_decode_encode)
qed

lemma encrypted_data_nonempty:
  assumes bc: "block_cipher E D" and lv: "length v = 16"
  shows "concat (cbc_encrypt E v (blocks16 (pkcs7_pad bs))) \<noteq> []"
proof -
  obtain p ps cs where "cbc_encrypt E v (blocks16 (pkcs7_pad bs)) = cs" "concat cs \<noteq> []"
    using encrypted_blocks [OF bc lv, of bs] by metis
  then show ?thesis by simp
qed

text \<open>
  The round trip: what \<^verbatim>\<open>encryptMessage\<close> returns, \<^verbatim>\<open>decryptMessage\<close> decrypts to the
  decoding of the text's UTF-8 bytes.
\<close>

lemma decrypt_after_encrypt:
  assumes bc: "block_cipher (block_encrypt ce) (block_decrypt ce)"
    and e: "encryptMessage ce (JStr s) = Inr (enc, ivh)"
  shows "decryptMessage ce (JStr enc) (JStr ivh) = Inr (utf8_decode ce (utf8_encode s))"
proof -
  have lv: "length (randomBytes ce 16) = 16" by (rule length_randomBytes)
  show ?thesis
    unfolding encryptMessage_Inr(2,3) [OF e]
    by (simp add: decryptMessage_hex [OF encrypted_data_nonempty [OF bc lv] lv]
          decipher_roundtrip [OF bc lv])
qed

text \<open>
  C4 at its failing input. Take any text that \<^verbatim>\<open>encryptMessage\<close> encrypts, and flip any
  bits \<open>d\<close> of the first byte of the iv it returned. The tampered iv is still 32 hex
  digits and differs from the original, and \<^verbatim>\<open>decryptMessage\<close> does not throw: it
  returns the decoding of the plaintext bytes with the same bits flipped in their first
  byte. Cipher block chaining XORs the iv into the first block only, so the padding stays
  valid. This holds for every block primitive whose decryption undoes its encryption.
\<close>

theorem tampered_iv_decrypts:
  assumes bc: "block_cipher (block_encrypt ce) (block_decrypt ce)"
    and e: "encryptMessage ce (JStr s) = Inr (enc, ivh)"
    and d: "d \<noteq> 0"
  shows "hex_encode (xor_first d (hex_decode ivh)) \<noteq> ivh
     \<and> xor_first d (utf8_encode s) \<noteq> utf8_encode s
     \<and> decryptMessage ce (JStr enc) (JStr (hex_encode (xor_first d (hex_decode ivh))))
         = Inr (utf8_decode ce (xor_first d (utf8_encode s)))"
proof -
  let ?v = "randomBytes ce 16"
  have lv: "length ?v = 16" by (rule length_randomBytes)
  have vne: "?v \<noteq> []" using lv by auto
  have lt: "length (xor_first d ?v) = 16" using lv by (simp add: xor_first_length)
  have s: "s \<noteq> []" using e by (rule encryptMessage_Inr)
  have u: "utf8_encode s \<noteq> []" using s by (rule utf8_encode_nonempty)
  have iv: "hex_decode ivh = ?v" by (simp add: encryptMessage_Inr(2) [OF e] hex_decode_encode)
  have 1: "hex_encode (xor_first d ?v) \<noteq> hex_encode ?v"
  proof
    assume "hex_encode (xor_first d ?v) = hex_encode ?v"
    then have "hex_decode (hex_encode (xor_first d ?v)) = hex_decode (hex_encode ?v)" by simp
    then have "xor_first d ?v = ?v" by (simp add: hex_decode_encode)
    with xor_first_changes [OF d vne] show False by simp
  qed
  have 2: "xor_first d (utf8_encode s) \<noteq> utf8_encode s"
    using d u by (rule xor_first_changes)
  have 3: "decryptMessage ce (JStr enc) (JStr (hex_encode (xor_first d ?v)))
         = Inr (utf8_decode ce (xor_first d (utf8_encode s)))"
    unfolding encryptMessage_Inr(3) [OF e]
    by (simp add: decryptMessage_hex [OF encrypted_data_nonempty [OF bc lv] lt]
          decipher_tampered_iv [OF bc lv u])
  show ?thesis using 1 2 3 by (simp add: encryptMessage_Inr(2) [OF e] hex_decode_encode)
qed

lemma scenario_block_cipher:
  "block_cipher (block_encrypt scenario_crypto) (block_decrypt scenario_crypto)"
  by (simp add: block_cipher_def scenario_crypto_def)

lemma scenario_decode_A:
  "utf8_decode scenario_crypto (utf8_encode (js ''A'')) = js ''A''"
  "utf8_decode scenario_crypto (xor_first 3 (utf8_encode (js ''A''))) = js ''B''"
  by (simp_all add: scenario_crypto_def js_def utf8_of_code_point_def is_high_surrogate_def
        is_low_surrogate_def xor_first_def)

text \<open>
  The text "A": decryption with the untouched iv gives "A" back, and with the two low
  bits of the iv's first byte flipped it gives "B".
\<close>

theorem tampered_iv_decrypts_witness:
  "\<exists>enc ivh. encryptMessage scenario_crypto (JStr (js ''A'')) = Inr (enc, ivh)
     \<and> decryptMessage scenario_crypto (JStr enc) (JStr ivh) = Inr (js ''A'')
     \<and> hex_encode (xor_first 3 (hex_decode ivh)) \<noteq> ivh
     \<and> decryptMessage scenario_crypto (JStr enc)
          (JStr (hex_encode (xor_first 3 (hex_decode ivh)))) = Inr (js ''B'')"
proof -
  have "js ''A'' \<noteq> []" by (simp add: js_def)
  then obtain enc ivh where e: "encryptMessage scenario_crypto (JStr (js ''A'')) = Inr (enc, ivh)"
    using encryptMessage_nonempty by blast
  have d: "(3 :: byte) \<noteq> 0" by simp
  from tampered_iv_decrypts [OF scenario_block_cipher e d]
       decrypt_after_encrypt [OF scenario_block_cipher e] e
  show ?thesis by (simp add: scenario_decode_A)
qed

end
